theory Spec2Isabelle
  imports Complex_Main
begin

section \<open>JavaScript numbers and their string conversions\<close>

text \<open>
  The player keeps positions, durations and rates as JavaScript numbers, prints them with
  \<^verbatim>\<open>Number.prototype.toString\<close> and reads them back with \<^verbatim>\<open>parseInt\<close> and
  \<^verbatim>\<open>parseFloat\<close>. A finite number is written \<open>Dec m e\<close>, the decimal \<open>m * 10 ^ e\<close> that
  ECMAScript prints for it: the shortest decimal that the double is the nearest double of.
  The decimal digits are what the printing algorithm works on. A sum, a difference and
  the result of \<^verbatim>\<open>parseFloat\<close> are rounded to the nearest double (ties to even, overflow
  to infinity) and written by the shortest decimal of that double. The negative zero is
  identified with zero.
\<close>

datatype jsnum = NaN | PosInf | NegInf | Dec int int

definition dec_val :: "int \<Rightarrow> int \<Rightarrow> rat" where
  "dec_val m e = of_int m * 10 powi e"

fun js_neg :: "jsnum \<Rightarrow> jsnum" where
  "js_neg NaN = NaN"
| "js_neg PosInf = NegInf"
| "js_neg NegInf = PosInf"
| "js_neg (Dec m e) = Dec (- m) e"

text \<open>\<^verbatim>\<open>a < b\<close>: false as soon as one side is \<^verbatim>\<open>NaN\<close>.\<close>

fun js_lt :: "jsnum \<Rightarrow> jsnum \<Rightarrow> bool" where
  "js_lt NaN b = False"
| "js_lt a NaN = False"
| "js_lt PosInf b = False"
| "js_lt NegInf NegInf = False"
| "js_lt NegInf b = True"
| "js_lt (Dec m e) PosInf = True"
| "js_lt (Dec m e) NegInf = False"
| "js_lt (Dec m1 e1) (Dec m2 e2) = (dec_val m1 e1 < dec_val m2 e2)"

definition js_gt :: "jsnum \<Rightarrow> jsnum \<Rightarrow> bool" where
  "js_gt a b = js_lt b a"

definition Math_min :: "jsnum \<Rightarrow> jsnum \<Rightarrow> jsnum" where
  "Math_min a b = (if a = NaN \<or> b = NaN then NaN else if js_lt b a then b else a)"

definition Math_max :: "jsnum \<Rightarrow> jsnum \<Rightarrow> jsnum" where
  "Math_max a b = (if a = NaN \<or> b = NaN then NaN else if js_lt a b then b else a)"

text \<open>A number in a condition (\<^verbatim>\<open>if (x)\<close>) counts as false when it is zero or \<^verbatim>\<open>NaN\<close>.\<close>

fun js_truthy :: "jsnum \<Rightarrow> bool" where
  "js_truthy NaN = False"
| "js_truthy (Dec m e) = (m \<noteq> 0)"
| "js_truthy x = True"

text \<open>The value of a finite number, for stating results; \<open>0\<close> for the others.\<close>

fun js_val :: "jsnum \<Rightarrow> rat" where
  "js_val (Dec m e) = dec_val m e"
| "js_val x = 0"

fun is_finite :: "jsnum \<Rightarrow> bool" where
  "is_finite (Dec m e) = True"
| "is_finite x = False"

subsection \<open>Digits\<close>

text \<open>The decimal digits of a natural number, the most significant first.\<close>

function digits10 :: "int \<Rightarrow> int list" where
  "digits10 n = (if n < 10 then [n] else digits10 (n div 10) @ [n mod 10])"
  by pat_completeness auto
termination
  by (relation "measure nat") auto

declare digits10.simps [simp del]

definition digits_value :: "int \<Rightarrow> int list \<Rightarrow> int" where
  "digits_value R ds = foldl (\<lambda>a d. R * a + d) 0 ds"

text \<open>Lists of decimal digits.\<close>

definition digit_list :: "int list \<Rightarrow> bool" where
  "digit_list ds = (\<forall>d \<in> set ds. 0 \<le> d \<and> d < 10)"

definition digit_char :: "int \<Rightarrow> char" where
  "digit_char d = char_of (48 + d)"

definition is_digit :: "char \<Rightarrow> bool" where
  "is_digit c = (48 \<le> (of_char c :: int) \<and> (of_char c :: int) \<le> 57)"

definition digit_val :: "char \<Rightarrow> int" where
  "digit_val c = of_char c - 48"

text \<open>The value of a character as a digit of a radix up to 36, and whether it is one.\<close>

definition radix_val :: "char \<Rightarrow> int" where
  "radix_val c =
     (let u = (of_char c :: int)
      in if 48 \<le> u \<and> u \<le> 57 then u - 48
         else if 97 \<le> u \<and> u \<le> 122 then u - 87
         else if 65 \<le> u \<and> u \<le> 90 then u - 55
         else 36)"

definition is_radix_digit :: "int \<Rightarrow> char \<Rightarrow> bool" where
  "is_radix_digit R c = (radix_val c < R)"

text \<open>White space that \<^verbatim>\<open>parseInt\<close> and \<^verbatim>\<open>parseFloat\<close> skip (the ASCII part of it).\<close>

definition is_space :: "char \<Rightarrow> bool" where
  "is_space c = ((of_char c :: int) \<in> {9, 10, 11, 12, 13, 32})"

definition trim_start :: "string \<Rightarrow> string" where
  "trim_start s = dropWhile is_space s"

subsection \<open>Doubles\<close>

text \<open>Powers with an integer exponent, by squaring.\<close>

function ipow :: "int \<Rightarrow> int \<Rightarrow> int" where
  "ipow b k = (if k \<le> 0 then 1 else if even k then ipow (b * b) (k div 2)
               else b * ipow (b * b) (k div 2))"
  by pat_completeness auto
termination
  by (relation "measure (\<lambda>(b, k). nat k)") auto

declare ipow.simps [simp del]

definition scale :: "int \<Rightarrow> int \<Rightarrow> rat" where
  "scale b k = (if 0 \<le> k then of_int (ipow b k) else 1 / of_int (ipow b (- k)))"

function bit_length :: "int \<Rightarrow> int" where
  "bit_length n = (if n \<le> 0 then 0 else 1 + bit_length (n div 2))"
  by pat_completeness auto
termination
  by (relation "measure nat") auto

declare bit_length.simps [simp del]

text \<open>For a positive \<open>x\<close>, the exponent \<open>d\<close> with \<open>2 ^ d \<le> x < 2 ^ (d + 1)\<close>.\<close>

definition floor_log2 :: "rat \<Rightarrow> int" where
  "floor_log2 x =
     (let (p, q) = quotient_of x; d = bit_length p - bit_length q
      in if scale 2 d \<le> x then d else d - 1)"

definition round_half_even :: "rat \<Rightarrow> int" where
  "round_half_even q =
     (let f = \<lfloor>q\<rfloor>; r = q - of_int f
      in if r < 1 / 2 then f else if 1 / 2 < r then f + 1 else if even f then f else f + 1)"

text \<open>
  The double nearest to a rational, ties to even: a mantissa of 53 bits, or fewer below
  the smallest normal number, where the exponent stops at \<open>-1074\<close>. The exponent is not
  bounded above; \<open>double_of\<close> turns what reaches \<open>2 ^ 1024\<close> into an infinity.
\<close>

definition nearest_double :: "rat \<Rightarrow> rat" where
  "nearest_double x =
     (if x = 0 then 0
      else (let a = \<bar>x\<bar>;
                E = max (floor_log2 a - 52) (- 1074);
                M = round_half_even (a / scale 2 E)
            in sgn x * of_int M * scale 2 E))"

text \<open>For a positive \<open>x\<close>, the \<open>n\<close> with \<open>10 ^ (n - 1) \<le> x < 10 ^ n\<close>.\<close>

definition decimal_position :: "rat \<Rightarrow> int" where
  "decimal_position x =
     (let (p, q) = quotient_of x; d = int (length (digits10 p)) - int (length (digits10 q))
      in if scale 10 d \<le> x then d + 1 else d)"

text \<open>
  The shortest decimal of a positive double \<open>y\<close>: with \<open>k\<close> digits, starting from one digit,
  the two \<open>k\<close>-digit decimals around \<open>y\<close> are tried; the one that rounds back to \<open>y\<close> is
  taken, the closer one if both do. Seventeen digits are enough for every double.
\<close>

fun shortest_decimal :: "nat \<Rightarrow> int \<Rightarrow> int \<Rightarrow> rat \<Rightarrow> jsnum" where
  "shortest_decimal 0 k n y = Dec (round_half_even (y / scale 10 (n - k))) (n - k)"
| "shortest_decimal (Suc fuel) k n y =
     (let u = scale 10 (n - k);
          lo = \<lfloor>y / u\<rfloor>;
          hi = lo + 1;
          ok_lo = (nearest_double (of_int lo * u) = y);
          ok_hi = (nearest_double (of_int hi * u) = y)
      in if ok_lo \<and> ok_hi
         then (if y - of_int lo * u < of_int hi * u - y then Dec lo (n - k)
               else if of_int hi * u - y < y - of_int lo * u then Dec hi (n - k)
               else if even lo then Dec lo (n - k) else Dec hi (n - k))
         else if ok_lo then Dec lo (n - k)
         else if ok_hi then Dec hi (n - k)
         else shortest_decimal fuel (k + 1) n y)"

text \<open>The number that a computation with the exact result \<open>x\<close> gives.\<close>

definition double_of :: "rat \<Rightarrow> jsnum" where
  "double_of x =
     (let y = nearest_double x
      in if y = 0 then Dec 0 0
         else if scale 2 1024 \<le> \<bar>y\<bar> then (if y < 0 then NegInf else PosInf)
         else if y < 0 then js_neg (shortest_decimal 17 1 (decimal_position (- y)) (- y))
         else shortest_decimal 17 1 (decimal_position y) y)"

text \<open>\<^verbatim>\<open>a + b\<close> and \<^verbatim>\<open>a - b\<close>: the exact sum of the two doubles, rounded.\<close>

fun js_add :: "jsnum \<Rightarrow> jsnum \<Rightarrow> jsnum" where
  "js_add NaN b = NaN"
| "js_add a NaN = NaN"
| "js_add PosInf NegInf = NaN"
| "js_add NegInf PosInf = NaN"
| "js_add PosInf b = PosInf"
| "js_add a PosInf = PosInf"
| "js_add NegInf b = NegInf"
| "js_add a NegInf = NegInf"
| "js_add (Dec m1 e1) (Dec m2 e2) =
     double_of (nearest_double (dec_val m1 e1) + nearest_double (dec_val m2 e2))"

definition js_sub :: "jsnum \<Rightarrow> jsnum \<Rightarrow> jsnum" where
  "js_sub a b = js_add a (js_neg b)"

subsection \<open>\<^verbatim>\<open>Number.prototype.toString\<close>\<close>

text \<open>
  ECMAScript prints a positive number from its shortest digit string \<open>ds\<close> (\<open>k\<close> digits,
  no trailing zero) and the position \<open>n\<close> of the decimal point, the number being
  \<open>0.ds * 10 ^ n\<close>: plain digits when \<open>k \<le> n \<le> 21\<close>, a decimal point inside when
  \<open>0 < n \<le> 21\<close>, leading zeros when \<open>-6 < n \<le> 0\<close>, and the exponent notation otherwise.
\<close>

definition significant :: "int list \<Rightarrow> int list" where
  "significant ds = rev (dropWhile (\<lambda>d. d = 0) (rev ds))"

definition decimal_string :: "int list \<Rightarrow> int \<Rightarrow> string" where
  "decimal_string ds n =
     (let k = int (length ds); cs = map digit_char ds
      in if k \<le> n \<and> n \<le> 21 then cs @ replicate (nat (n - k)) CHR ''0''
         else if 0 < n \<and> n \<le> 21 then take (nat n) cs @ ''.'' @ drop (nat n) cs
         else if - 6 < n \<and> n \<le> 0 then ''0.'' @ replicate (nat (- n)) CHR ''0'' @ cs
         else (let x = n - 1;
                   sgn = (if x < 0 then ''-'' else ''+'');
                   xs = map digit_char (digits10 \<bar>x\<bar>)
               in if k = 1 then cs @ ''e'' @ sgn @ xs
                  else take 1 cs @ ''.'' @ drop 1 cs @ ''e'' @ sgn @ xs))"

definition positive_toString :: "int \<Rightarrow> int \<Rightarrow> string" where
  "positive_toString m e =
     (let ds = digits10 m
      in decimal_string (significant ds) (int (length ds) + e))"

fun Number_toString :: "jsnum \<Rightarrow> string" where
  "Number_toString NaN = ''NaN''"
| "Number_toString PosInf = ''Infinity''"
| "Number_toString NegInf = ''-Infinity''"
| "Number_toString (Dec m e) =
     (if m = 0 then ''0''
      else if m < 0 then ''-'' @ positive_toString (- m) e
      else positive_toString m e)"

subsection \<open>\<^verbatim>\<open>parseInt\<close> and \<^verbatim>\<open>parseFloat\<close>\<close>

text \<open>
  \<^verbatim>\<open>parseInt(string)\<close> without a radix: leading white space and a sign are skipped, a
  prefix \<^verbatim>\<open>0x\<close> switches to radix 16, and the longest run of digits of the radix is the
  result; \<^verbatim>\<open>NaN\<close> when that run is empty. Whatever follows the run is ignored.
\<close>

definition parseInt :: "string \<Rightarrow> jsnum" where
  "parseInt string =
     (let S = trim_start string;
          sign = (if take 1 S = ''-'' then - 1 else 1 :: int);
          S1 = (if take 1 S = ''+'' \<or> take 1 S = ''-'' then drop 1 S else S);
          hex = (take 2 S1 = ''0x'' \<or> take 2 S1 = ''0X'');
          R = (if hex then 16 else 10);
          S2 = (if hex then drop 2 S1 else S1);
          Z = takeWhile (is_radix_digit R) S2
      in if Z = [] then NaN
         else Dec (sign * digits_value R (map radix_val Z)) 0)"

text \<open>The exponent part of a decimal literal, \<open>0\<close> when there is none or it has no digit.\<close>

definition exponent_part :: "string \<Rightarrow> int" where
  "exponent_part r =
     (if take 1 r = ''e'' \<or> take 1 r = ''E'' then
        (let r1 = drop 1 r;
             sign = (if take 1 r1 = ''-'' then - 1 else 1 :: int);
             r2 = (if take 1 r1 = ''+'' \<or> take 1 r1 = ''-'' then drop 1 r1 else r1);
             ds = takeWhile is_digit r2
         in if ds = [] then 0 else sign * digits_value 10 (map digit_val ds))
      else 0)"

text \<open>
  \<^verbatim>\<open>parseFloat(string)\<close>: the longest prefix, after white space, that is a decimal
  literal (sign, \<^verbatim>\<open>Infinity\<close> or digits with an optional fraction and exponent);
  \<^verbatim>\<open>NaN\<close> when no prefix is one. The value of the literal is rounded to a double.
\<close>

definition parseFloat :: "string \<Rightarrow> jsnum" where
  "parseFloat string =
     (let S = trim_start string;
          sign = (if take 1 S = ''-'' then - 1 else 1 :: int);
          S1 = (if take 1 S = ''+'' \<or> take 1 S = ''-'' then drop 1 S else S)
      in if take 8 S1 = ''Infinity'' then (if sign < 0 then NegInf else PosInf)
         else
          (let ip = takeWhile is_digit S1;
               r1 = dropWhile is_digit S1;
               dot = (take 1 r1 = ''.'');
               fp = (if dot then takeWhile is_digit (drop 1 r1) else []);
               r2 = (if dot then dropWhile is_digit (drop 1 r1) else r1)
           in if ip = [] \<and> fp = [] then NaN
              else double_of (dec_val (sign * digits_value 10 (map digit_val (ip @ fp)))
                                      (exponent_part r2 - int (length fp)))))"

section \<open>The web player: \<^verbatim>\<open>class PodcastApp\<close>\<close>

text \<open>
  The player is modelled by its fields, the audio element and \<^verbatim>\<open>localStorage\<close>; every
  method takes the state and returns the new one. What a method only draws on the page
  (\<^verbatim>\<open>updateMiniPlayer\<close>, \<^verbatim>\<open>showMiniPlayer\<close>, \<^verbatim>\<open>updateProgress\<close>, \<^verbatim>\<open>showNotification\<close>) and
  what it logs is left out: none of it is read back by the methods below. Beside the
  fields of the class the state holds what the browser keeps for the element: the play
  promises that are pending, the tasks that the element has queued, and the exceptions
  that a method let escape (it stops there, and the browser reports them).
\<close>

subsection \<open>Data\<close>

text \<open>
  An episode of the catalogue. Only the fields that playback reads are kept; the title,
  description, artwork, date, play count and category are used for rendering alone.
\<close>

record episode =
  ep_id :: int
  audioUrl :: string
  ep_duration :: jsnum

record bookmark =
  b_id :: int
  b_episodeId :: int
  b_timestamp :: jsnum
  b_note :: string

record analytics =
  totalPlays :: int
  totalTime :: jsnum

text \<open>
  The object that \<^verbatim>\<open>saveData\<close> serialises under the key \<^verbatim>\<open>podcastAppData\<close>. Each episode
  goes in with its identifier and progress; its \<^verbatim>\<open>lastPlayed\<close> is never set, and JSON drops
  an undefined field.
\<close>

record saved_data =
  sd_bookmarks :: "bookmark list"
  sd_downloads :: "int list"
  sd_analytics :: analytics
  sd_theme :: string
  sd_episodes :: "(int \<times> jsnum) list"

text \<open>
  \<^verbatim>\<open>localStorage\<close>: a map from keys to strings, together with the number of
  \<^verbatim>\<open>setItem\<close> calls made so far, which counts the writes that reach the durable store.
  The JSON text of \<^verbatim>\<open>saveData\<close> is kept as the object it encodes.
\<close>

datatype stored = Text string | AppData saved_data

record storage =
  items :: "string \<rightharpoonup> stored"
  setItem_calls :: nat

definition getItem :: "string \<Rightarrow> storage \<Rightarrow> stored option" where
  "getItem k st = items st k"

definition setItem :: "string \<Rightarrow> stored \<Rightarrow> storage \<Rightarrow> storage" where
  "setItem k v st = st\<lparr>items := (items st)(k \<mapsto> v), setItem_calls := Suc (setItem_calls st)\<rparr>"

text \<open>
  How far the \<^verbatim>\<open>Audio\<close> element is with its resource: none was ever selected
  (\<^verbatim>\<open>networkState\<close> is \<^verbatim>\<open>NETWORK_EMPTY\<close>), one is selected and its metadata are not there
  (\<^verbatim>\<open>readyState\<close> is \<^verbatim>\<open>HAVE_NOTHING\<close>), or the metadata are there (\<^verbatim>\<open>readyState\<close> is at
  least \<^verbatim>\<open>HAVE_METADATA\<close>).
\<close>

datatype media_ready = Nothing_selected | No_metadata | Have_metadata

text \<open>
  The \<^verbatim>\<open>Audio\<close> element, a media element of the HTML Standard, with the state that the
  attributes used by the player read and write, among them the official playback position
  and the default playback start position, which keeps a position set before the metadata
  are there.
\<close>

record audio_element =
  src :: string
  ready :: media_ready
  official_position :: jsnum
  default_start :: jsnum
  a_duration :: jsnum
  a_playbackRate :: jsnum
  a_defaultPlaybackRate :: jsnum
  paused :: bool

text \<open>
  Reading \<^verbatim>\<open>audio.currentTime\<close>: the default playback start position unless that is zero,
  the official playback position otherwise.
\<close>

definition a_currentTime :: "audio_element \<Rightarrow> jsnum" where
  "a_currentTime a =
     (if js_truthy (default_start a) then default_start a else official_position a)"

text \<open>
  \<^verbatim>\<open>audio.play()\<close> returns a promise; the player attaches a callback to it in two
  places. A pending promise is recorded by the callback that waits on it.
\<close>

datatype play_callback = PlayEpisode_then episode | TogglePlayPause_then

text \<open>
  The tasks that the element queues and the event loop runs later: firing \<^verbatim>\<open>timeupdate\<close>
  after a change of position, and the task queued by pausing, which fires \<^verbatim>\<open>timeupdate\<close>
  and \<^verbatim>\<open>pause\<close> and rejects the play promises that were pending.
\<close>

datatype media_task = Fire_timeupdate | Pause_task "play_callback list"

text \<open>The exceptions that the setters of the element throw.\<close>

datatype dom_exception = TypeError | NotSupportedError

record podcast_app =
  currentEpisode :: "episode option"
  isPlaying :: bool
  currentTime :: jsnum
  duration :: jsnum
  volume :: jsnum
  playbackRate :: jsnum
  theme :: string
  episodes :: "episode list"
  bookmarks :: "bookmark list"
  downloads :: "int list"
  analytics :: analytics
  audio :: audio_element
  localStorage :: storage
  playPromises :: "play_callback list"
  tasks :: "media_task list"
  uncaught :: "dom_exception list"

subsection \<open>Construction\<close>

definition new_Audio :: audio_element where
  "new_Audio = \<lparr>src = [], ready = Nothing_selected,
                 official_position = Dec 0 0, default_start = Dec 0 0, a_duration = NaN,
                 a_playbackRate = Dec 1 0, a_defaultPlaybackRate = Dec 1 0, paused = True\<rparr>"

text \<open>The three sample episodes of \<^verbatim>\<open>loadEpisodes\<close>.\<close>

definition sample_episodes :: "episode list" where
  "sample_episodes =
     [\<lparr>ep_id = 1, audioUrl = ''https://www.soundjay.com/misc/sounds/bell-ringing-05.wav'',
       ep_duration = Dec 2700 0\<rparr>,
      \<lparr>ep_id = 2, audioUrl = ''https://www.soundjay.com/misc/sounds/bell-ringing-05.wav'',
       ep_duration = Dec 3600 0\<rparr>,
      \<lparr>ep_id = 3, audioUrl = ''https://www.soundjay.com/misc/sounds/bell-ringing-05.wav'',
       ep_duration = Dec 2100 0\<rparr>]"

definition loadEpisodes :: "podcast_app \<Rightarrow> podcast_app" where
  "loadEpisodes s = s\<lparr>episodes := sample_episodes\<rparr>"

definition loadData :: "podcast_app \<Rightarrow> podcast_app" where
  "loadData s =
     (case getItem ''podcastAppData'' (localStorage s) of
        Some (AppData parsed) \<Rightarrow>
          s\<lparr>bookmarks := sd_bookmarks parsed, downloads := sd_downloads parsed,
            analytics := sd_analytics parsed,
            theme := (if sd_theme parsed = [] then ''dark'' else sd_theme parsed)\<rparr>
      | _ \<Rightarrow> s)"

text \<open>The constructor, run on the \<^verbatim>\<open>localStorage\<close> found at start.\<close>

definition new_PodcastApp :: "storage \<Rightarrow> podcast_app" where
  "new_PodcastApp st =
     loadEpisodes (loadData
       \<lparr>currentEpisode = None, isPlaying = False, currentTime = Dec 0 0, duration = Dec 0 0,
        volume = Dec 1 0, playbackRate = Dec 1 0, theme = ''dark'', episodes = [],
        bookmarks = [], downloads = [],
        analytics = \<lparr>totalPlays = 0, totalTime = Dec 0 0\<rparr>,
        audio = new_Audio, localStorage = st, playPromises = [], tasks = [],
        uncaught = []\<rparr>)"

definition empty_storage :: storage where
  "empty_storage = \<lparr>items = Map.empty, setItem_calls = 0\<rparr>"

subsection \<open>Progress in \<^verbatim>\<open>localStorage\<close>\<close>

definition progress_key :: "int \<Rightarrow> string" where
  "progress_key episodeId = ''episode_progress_'' @ Number_toString (Dec episodeId 0)"

text \<open>
  \<^verbatim>\<open>getEpisodeProgress\<close>: \<^verbatim>\<open>saved ? parseInt(saved) : 0\<close>. A missing item and the empty
  string give \<open>0\<close>. A JSON object text starts with a brace, which \<^verbatim>\<open>parseInt\<close> rejects.
\<close>

definition getEpisodeProgress :: "int \<Rightarrow> podcast_app \<Rightarrow> jsnum" where
  "getEpisodeProgress episodeId s =
     (case getItem (progress_key episodeId) (localStorage s) of
        None \<Rightarrow> Dec 0 0
      | Some (Text saved) \<Rightarrow> (if saved = [] then Dec 0 0 else parseInt saved)
      | Some (AppData d) \<Rightarrow> NaN)"

definition saveProgress :: "podcast_app \<Rightarrow> podcast_app" where
  "saveProgress s =
     (case currentEpisode s of
        Some e \<Rightarrow>
          if js_gt (currentTime s) (Dec 0 0)
          then s\<lparr>localStorage :=
                   setItem (progress_key (ep_id e)) (Text (Number_toString (currentTime s)))
                     (localStorage s)\<rparr>
          else s
      | None \<Rightarrow> s)"

definition saveData :: "podcast_app \<Rightarrow> podcast_app" where
  "saveData s =
     s\<lparr>localStorage :=
         setItem ''podcastAppData''
           (AppData \<lparr>sd_bookmarks = bookmarks s, sd_downloads = downloads s,
                     sd_analytics = analytics s, sd_theme = theme s,
                     sd_episodes = map (\<lambda>e. (ep_id e, getEpisodeProgress (ep_id e) s))
                                       (episodes s)\<rparr>)
           (localStorage s)\<rparr>"

definition trackPlay :: "episode \<Rightarrow> podcast_app \<Rightarrow> podcast_app" where
  "trackPlay e s =
     saveData (s\<lparr>analytics :=
       (analytics s)\<lparr>totalPlays := totalPlays (analytics s) + 1,
                      totalTime := js_add (totalTime (analytics s)) (ep_duration e)\<rparr>\<rparr>)"

definition handleEpisodeEnd :: "podcast_app \<Rightarrow> podcast_app" where
  "handleEpisodeEnd s =
     saveData (s\<lparr>isPlaying := False,
                 analytics := (analytics s)\<lparr>totalPlays := totalPlays (analytics s) + 1\<rparr>\<rparr>)"

subsection \<open>Listeners and promise callbacks\<close>

text \<open>
  The listeners installed by \<^verbatim>\<open>setupAudioEvents\<close>. The one for \<^verbatim>\<open>error\<close> logs and
  notifies only.
\<close>

definition loadedmetadata :: "podcast_app \<Rightarrow> podcast_app" where
  "loadedmetadata s = s\<lparr>duration := a_duration (audio s)\<rparr>"

definition timeupdate :: "podcast_app \<Rightarrow> podcast_app" where
  "timeupdate s = saveProgress (s\<lparr>currentTime := a_currentTime (audio s)\<rparr>)"

definition ended :: "podcast_app \<Rightarrow> podcast_app" where
  "ended s = handleEpisodeEnd s"

text \<open>The body of the \<^verbatim>\<open>then\<close> callback attached to a play promise.\<close>

fun play_then :: "play_callback \<Rightarrow> podcast_app \<Rightarrow> podcast_app" where
  "play_then (PlayEpisode_then e) s = trackPlay e (s\<lparr>isPlaying := True\<rparr>)"
| "play_then TogglePlayPause_then s = s\<lparr>isPlaying := True\<rparr>"

text \<open>
  What runs when a play promise is rejected: the \<^verbatim>\<open>catch\<close> callback of \<^verbatim>\<open>playEpisode\<close>
  logs and notifies, and the promise of \<^verbatim>\<open>togglePlayPause\<close> has no rejection handler. No
  field of the player changes, so the moment at which the callback runs does not matter.
\<close>

fun play_catch :: "play_callback \<Rightarrow> podcast_app \<Rightarrow> podcast_app" where
  "play_catch (PlayEpisode_then e) s = s"
| "play_catch TogglePlayPause_then s = s"

definition reject_plays :: "play_callback list \<Rightarrow> podcast_app \<Rightarrow> podcast_app" where
  "reject_plays ps s = foldl (\<lambda>s1 cb. play_catch cb s1) s ps"

subsection \<open>The audio element\<close>

text \<open>
  Assigning \<^verbatim>\<open>audio.src\<close> runs the media element load algorithm. The tasks that the
  element had queued are removed, and the play promises that a removed task was to reject
  are rejected at once. If a resource had been selected before: an element that was
  playing becomes paused and its pending play promises are rejected with an
  \<^verbatim>\<open>AbortError\<close>, the official playback position goes back to zero (with a \<^verbatim>\<open>timeupdate\<close>
  if that changed it), and the duration is \<^verbatim>\<open>NaN\<close>. The playback rate goes back to its
  default. Then the new resource is selected, its metadata not there yet.
\<close>

definition promises_of :: "media_task \<Rightarrow> play_callback list" where
  "promises_of t = (case t of Pause_task ps \<Rightarrow> ps | Fire_timeupdate \<Rightarrow> [])"

definition audio_set_src :: "string \<Rightarrow> podcast_app \<Rightarrow> podcast_app" where
  "audio_set_src url s =
     (let a = audio s;
          s1 = reject_plays (concat (map promises_of (tasks s))) (s\<lparr>tasks := []\<rparr>);
          s2 = (if ready a = Nothing_selected then s1
                else (let s3 = (if paused a then s1
                                else reject_plays (playPromises s1) (s1\<lparr>playPromises := []\<rparr>))
                      in s3\<lparr>audio := a\<lparr>paused := True, official_position := Dec 0 0,
                                        a_duration := NaN\<rparr>,
                            tasks := (if js_truthy (official_position a)
                                      then [Fire_timeupdate] else [])\<rparr>))
      in s2\<lparr>audio := (audio s2)\<lparr>src := url, ready := No_metadata,
                                  a_playbackRate := a_defaultPlaybackRate (audio s2)\<rparr>\<rparr>)"

text \<open>
  Seeking moves the official playback position to the new position, brought into the
  resource (the whole of it taken as seekable), and queues a \<^verbatim>\<open>timeupdate\<close>.
\<close>

definition seek_target :: "jsnum \<Rightarrow> jsnum \<Rightarrow> jsnum" where
  "seek_target v d =
     (let w = (if js_lt d v then d else v) in if js_lt w (Dec 0 0) then Dec 0 0 else w)"

definition seek :: "jsnum \<Rightarrow> podcast_app \<Rightarrow> podcast_app" where
  "seek v s =
     s\<lparr>audio := (audio s)\<lparr>official_position := seek_target v (a_duration (audio s))\<rparr>,
       tasks := tasks s @ [Fire_timeupdate]\<rparr>"

text \<open>
  Assigning \<^verbatim>\<open>audio.currentTime\<close>: a value that is not finite is refused with a
  \<^verbatim>\<open>TypeError\<close> (the result tells whether the assignment returned); before the metadata
  are there the value becomes the default playback start position; afterwards the element
  seeks.
\<close>

definition audio_set_currentTime :: "jsnum \<Rightarrow> podcast_app \<Rightarrow> bool \<times> podcast_app" where
  "audio_set_currentTime v s =
     (if \<not> is_finite v then (False, s\<lparr>uncaught := uncaught s @ [TypeError]\<rparr>)
      else if ready (audio s) \<noteq> Have_metadata
           then (True, s\<lparr>audio := (audio s)\<lparr>default_start := v\<rparr>\<rparr>)
           else (True, seek v s))"

text \<open>
  Assigning \<^verbatim>\<open>audio.playbackRate\<close>: a value that is not finite is refused with a
  \<^verbatim>\<open>TypeError\<close>, a rate that the browser does not support with a \<^verbatim>\<open>NotSupportedError\<close>.
  Which rates a browser supports is its own choice, so it is a parameter.
\<close>

definition audio_set_playbackRate ::
  "(jsnum \<Rightarrow> bool) \<Rightarrow> jsnum \<Rightarrow> podcast_app \<Rightarrow> podcast_app" where
  "audio_set_playbackRate supported v s =
     (if \<not> is_finite v then s\<lparr>uncaught := uncaught s @ [TypeError]\<rparr>
      else if \<not> supported v then s\<lparr>uncaught := uncaught s @ [NotSupportedError]\<rparr>
      else s\<lparr>audio := (audio s)\<lparr>a_playbackRate := v\<rparr>\<rparr>)"

text \<open>
  \<^verbatim>\<open>audio.play()\<close> and \<^verbatim>\<open>audio.pause()\<close> select the resource of an element that has none
  selected.
\<close>

definition select_resource :: "audio_element \<Rightarrow> audio_element" where
  "select_resource a = (if ready a = Nothing_selected then a\<lparr>ready := No_metadata\<rparr> else a)"

text \<open>
  \<^verbatim>\<open>audio.play()\<close>: an element whose playback has ended seeks to the start; the element
  leaves the paused state at once, and the promise stays pending until the browser
  settles it (\<open>settle_play\<close>).
\<close>

definition playback_ended :: "audio_element \<Rightarrow> bool" where
  "playback_ended a =
     (ready a = Have_metadata \<and> is_finite (a_duration a)
      \<and> \<not> js_lt (official_position a) (a_duration a))"

definition audio_play :: "play_callback \<Rightarrow> podcast_app \<Rightarrow> podcast_app" where
  "audio_play cb s =
     (let s1 = (if playback_ended (audio s) then seek (Dec 0 0) s else s)
      in s1\<lparr>audio := (select_resource (audio s1))\<lparr>paused := False\<rparr>,
            playPromises := playPromises s1 @ [cb]\<rparr>)"

text \<open>
  \<^verbatim>\<open>audio.pause()\<close>: an element that is not paused becomes paused, and a task is queued
  that fires \<^verbatim>\<open>timeupdate\<close> and \<^verbatim>\<open>pause\<close> and rejects the play promises pending at the
  call.
\<close>

definition audio_pause :: "podcast_app \<Rightarrow> podcast_app" where
  "audio_pause s =
     (let s1 = s\<lparr>audio := select_resource (audio s)\<rparr>
      in if paused (audio s) then s1
         else s1\<lparr>audio := (audio s1)\<lparr>paused := True\<rparr>, playPromises := [],
                 tasks := tasks s @ [Pause_task (playPromises s)]\<rparr>)"

subsection \<open>Commands\<close>

text \<open>
  \<^verbatim>\<open>playEpisode\<close>. When the assignment of the saved progress to \<^verbatim>\<open>audio.currentTime\<close>
  throws, the method stops before \<^verbatim>\<open>audio.play()\<close>.
\<close>

definition playEpisode :: "int \<Rightarrow> podcast_app \<Rightarrow> podcast_app" where
  "playEpisode episodeId s =
     (case find (\<lambda>e. ep_id e = episodeId) (episodes s) of
        None \<Rightarrow> s
      | Some e \<Rightarrow>
          (let s1 = audio_set_src (audioUrl e) (s\<lparr>currentEpisode := Some e\<rparr>);
               progress = getEpisodeProgress episodeId s1;
               (returned, s2) = (if js_gt progress (Dec 0 0)
                                 then audio_set_currentTime progress s1
                                 else (True, s1))
           in if returned then audio_play (PlayEpisode_then e) s2 else s2))"

definition togglePlayPause :: "podcast_app \<Rightarrow> podcast_app" where
  "togglePlayPause s =
     (if currentEpisode s = None then s
      else if isPlaying s
           then (audio_pause s)\<lparr>isPlaying := False\<rparr>
           else audio_play TogglePlayPause_then s)"

definition skipForward :: "podcast_app \<Rightarrow> podcast_app" where
  "skipForward s =
     (if js_truthy (a_currentTime (audio s))
      then snd (audio_set_currentTime
                  (Math_min (js_add (a_currentTime (audio s)) (Dec 30 0)) (duration s)) s)
      else s)"

definition skipBackward :: "podcast_app \<Rightarrow> podcast_app" where
  "skipBackward s =
     (if js_truthy (a_currentTime (audio s))
      then snd (audio_set_currentTime
                  (Math_max (js_sub (a_currentTime (audio s)) (Dec 15 0)) (Dec 0 0)) s)
      else s)"

text \<open>
  \<^verbatim>\<open>setPlaybackRate\<close>: the field of the player is assigned first, then the attribute of
  the element; the notification that follows draws only.
\<close>

definition setPlaybackRate :: "(jsnum \<Rightarrow> bool) \<Rightarrow> string \<Rightarrow> podcast_app \<Rightarrow> podcast_app" where
  "setPlaybackRate supported rate s =
     audio_set_playbackRate supported (parseFloat rate) (s\<lparr>playbackRate := parseFloat rate\<rparr>)"

subsection \<open>What the browser does later\<close>

text \<open>
  The browser settles the pending play promise number \<open>i\<close>: fulfilled, its \<^verbatim>\<open>then\<close>
  callback runs; rejected, what \<open>play_catch\<close> describes. A promise that was rejected
  already is not pending any more and cannot be settled again.
\<close>

definition settle_play :: "bool \<Rightarrow> nat \<Rightarrow> podcast_app \<Rightarrow> podcast_app" where
  "settle_play fulfilled i s =
     (if i < length (playPromises s)
      then (let cb = playPromises s ! i;
                s1 = s\<lparr>playPromises := take i (playPromises s) @ drop (Suc i) (playPromises s)\<rparr>
            in if fulfilled then play_then cb s1 else play_catch cb s1)
      else s)"

text \<open>The event loop runs the tasks that the element has queued, in their order.\<close>

fun run_task :: "media_task \<Rightarrow> podcast_app \<Rightarrow> podcast_app" where
  "run_task Fire_timeupdate s = timeupdate s"
| "run_task (Pause_task ps) s = reject_plays ps (timeupdate s)"

definition run_tasks :: "podcast_app \<Rightarrow> podcast_app" where
  "run_tasks s = foldl (\<lambda>s1 t. run_task t s1) (s\<lparr>tasks := []\<rparr>) (tasks s)"

text \<open>
  What the media does on its own. Playback reaches a position. The metadata arrive: the
  duration is known, and the element seeks to the default playback start position if one
  was set.
\<close>

definition media_at :: "jsnum \<Rightarrow> podcast_app \<Rightarrow> podcast_app" where
  "media_at p s =
     s\<lparr>audio := (audio s)\<lparr>ready := Have_metadata, official_position := p,
                          default_start := Dec 0 0\<rparr>\<rparr>"

definition media_metadata :: "jsnum \<Rightarrow> podcast_app \<Rightarrow> podcast_app" where
  "media_metadata d s =
     (let a = audio s;
          s1 = s\<lparr>audio := a\<lparr>ready := Have_metadata, a_duration := d,
                             default_start := Dec 0 0\<rparr>\<rparr>
      in if js_truthy (default_start a) then seek (default_start a) s1 else s1)"

text \<open>
  Progress ticks delivered one after the other, each at a wall-clock time and a media
  position. The result lists the times of the ticks that wrote to the store.
\<close>

fun deliver_ticks :: "(rat \<times> jsnum) list \<Rightarrow> podcast_app \<Rightarrow> rat list \<times> podcast_app" where
  "deliver_ticks [] s = ([], s)"
| "deliver_ticks ((t, p) # ticks) s =
     (let s1 = timeupdate (media_at p s);
          wrote = (setItem_calls (localStorage s) < setItem_calls (localStorage s1));
          (ws, s2) = deliver_ticks ticks s1
      in ((if wrote then [t] else []) @ ws, s2))"

text \<open>Write times that keep a distance of at least \<open>gap\<close> from one to the next.\<close>

fun throttled :: "rat \<Rightarrow> rat list \<Rightarrow> bool" where
  "throttled gap (a # b # ws) = (gap \<le> b - a \<and> throttled gap (b # ws))"
| "throttled gap ws = True"

section \<open>The restoration prompt: \<^verbatim>\<open>PlaybackRestoration\<close>\<close>

text \<open>
  The component keeps three state cells (\<^verbatim>\<open>episode\<close>, \<^verbatim>\<open>isVisible\<close>, \<^verbatim>\<open>isLoading\<close>)
  and reads \<^verbatim>\<open>lastPlaybackState\<close> from the hook \<^verbatim>\<open>useAppLifecycle\<close>.
\<close>

record Episode =
  e_id :: string
  e_title :: string
  e_duration :: jsnum

record last_playback =
  episodeId :: string
  position :: jsnum

record restoration =
  lastPlaybackState :: "last_playback option"
  episode :: "Episode option"
  isVisible :: bool
  isLoading :: bool

datatype error =
  LoadError | PlaybackError | SeekError | InvalidRateError | PersistenceError | RestorationError

text \<open>
  Modelled from the spec: the hook \<^verbatim>\<open>useAppLifecycle\<close> is not among the sources. Its
  \<^verbatim>\<open>clearLastPlaybackState\<close> clears the checkpoint: no resume pointer is left.
\<close>

definition clearLastPlaybackState :: "restoration \<Rightarrow> restoration" where
  "clearLastPlaybackState c = c\<lparr>lastPlaybackState := None\<rparr>"

text \<open>
  \<^verbatim>\<open>loadEpisodeForRestoration\<close>. The catalogue lookup \<^verbatim>\<open>podcastService.getEpisodeById\<close>
  is a parameter: it throws (\<open>Inl\<close>), or returns nothing (\<open>Inr None\<close>), or returns the
  episode. An empty identifier counts as false in the first test.
\<close>

definition loadEpisodeForRestoration ::
  "(string \<Rightarrow> error + Episode option) \<Rightarrow> restoration \<Rightarrow> restoration" where
  "loadEpisodeForRestoration getEpisodeById c =
     (case lastPlaybackState c of
        None \<Rightarrow> c
      | Some lps \<Rightarrow>
          if episodeId lps = [] then c
          else (case getEpisodeById (episodeId lps) of
                  Inr (Some episodeData) \<Rightarrow> c\<lparr>episode := Some episodeData, isVisible := True\<rparr>
                | Inr None \<Rightarrow> c
                | Inl err \<Rightarrow> clearLastPlaybackState c))"

text \<open>The effect that runs when \<^verbatim>\<open>lastPlaybackState\<close> is set.\<close>

definition useEffect_lastPlaybackState ::
  "(string \<Rightarrow> error + Episode option) \<Rightarrow> restoration \<Rightarrow> restoration" where
  "useEffect_lastPlaybackState getEpisodeById c =
     (case lastPlaybackState c of
        None \<Rightarrow> c
      | Some lps \<Rightarrow>
          if episodeId lps = [] then c else loadEpisodeForRestoration getEpisodeById c)"

text \<open>The component renders the prompt unless one of the three tests sends it to \<^verbatim>\<open>null\<close>.\<close>

definition prompt_shown :: "restoration \<Rightarrow> bool" where
  "prompt_shown c = (isVisible c \<and> episode c \<noteq> None \<and> lastPlaybackState c \<noteq> None)"

text \<open>
  \<^verbatim>\<open>handleRestore\<close>, the Resume button. The two calls on the audio service are
  parameters: each returns the engine it leaves and the error it throws, if any. A
  throw lands in the \<^verbatim>\<open>catch\<close>, which only logs; \<^verbatim>\<open>finally\<close> resets \<^verbatim>\<open>isLoading\<close>, which
  is true only while the calls are awaited.
\<close>

definition handleRestore ::
  "(Episode \<Rightarrow> 'e \<Rightarrow> error option \<times> 'e) \<Rightarrow> (jsnum \<Rightarrow> 'e \<Rightarrow> error option \<times> 'e) \<Rightarrow>
   restoration \<times> 'e \<Rightarrow> restoration \<times> 'e" where
  "handleRestore loadEpisode seekTo ce =
     (case ce of (c, eng) \<Rightarrow>
        (case (episode c, lastPlaybackState c) of
           (Some ep, Some lps) \<Rightarrow>
             (case loadEpisode ep eng of
                (Some err, eng1) \<Rightarrow> (c\<lparr>isLoading := False\<rparr>, eng1)
              | (None, eng1) \<Rightarrow>
                  (case seekTo (position lps) eng1 of
                     (Some err, eng2) \<Rightarrow> (c\<lparr>isLoading := False\<rparr>, eng2)
                   | (None, eng2) \<Rightarrow>
                       ((clearLastPlaybackState c)\<lparr>isVisible := False, isLoading := False\<rparr>,
                        eng2)))
         | _ \<Rightarrow> (c, eng)))"

definition handleDismiss :: "restoration \<Rightarrow> restoration" where
  "handleDismiss c = (clearLastPlaybackState c)\<lparr>isVisible := False\<rparr>"

subsection \<open>The audio service behind the prompt\<close>

datatype phase = Idle | Loading | Paused | Playing | Ended | Failed

record engine =
  eng_episode :: "Episode option"
  eng_phase :: phase
  eng_position :: jsnum
  eng_duration :: "jsnum option"
  eng_generation :: nat
  eng_checkpoints :: "string \<rightharpoonup> jsnum"

text \<open>What the media backend answers to a load: the metadata with the duration, or a failure.\<close>

datatype backend_answer = MetadataReady jsnum | LoadFailure

text \<open>
  Modelled from the spec: the class \<^verbatim>\<open>AudioService\<close> is not among the sources. A seek
  value is clamped into the range from \<open>0\<close> to the duration.
\<close>

definition clamp_position :: "jsnum \<Rightarrow> jsnum \<Rightarrow> jsnum" where
  "clamp_position v d = Math_max (Dec 0 0) (Math_min v d)"

text \<open>
  Modelled from the spec: \<^verbatim>\<open>AudioService.loadEpisode\<close>, awaited. The load replaces the
  active episode, enters \<open>Loading\<close> and takes the next generation token. When the metadata
  resolve the engine is ready and paused, at the saved position of the episode if there is
  one; it never starts playing. A failure of the backend reports \<open>LoadError\<close> and leaves
  the engine in the error phase.
\<close>

definition spec_loadEpisode ::
  "backend_answer \<Rightarrow> Episode \<Rightarrow> engine \<Rightarrow> error option \<times> engine" where
  "spec_loadEpisode answer ep eng =
     (let eng1 = eng\<lparr>eng_episode := Some ep, eng_phase := Loading, eng_position := Dec 0 0,
                     eng_duration := None, eng_generation := Suc (eng_generation eng)\<rparr>
      in case answer of
           LoadFailure \<Rightarrow> (Some LoadError, eng1\<lparr>eng_phase := Failed\<rparr>)
         | MetadataReady d \<Rightarrow>
             (None,
              eng1\<lparr>eng_phase := Paused, eng_duration := Some d,
                   eng_position := (case eng_checkpoints eng (e_id ep) of
                                      None \<Rightarrow> Dec 0 0
                                    | Some p \<Rightarrow> clamp_position p d)\<rparr>))"

text \<open>
  Modelled from the spec: \<^verbatim>\<open>AudioService.seekTo\<close>, awaited. With a known duration the
  position becomes the clamped value, a checkpoint is forced for the episode and the phase
  stays as it is. With an unknown duration the call waits for the metadata; the case
  taken here is the one where none arrive in time: \<open>SeekError\<close>, and nothing changes.
\<close>

definition spec_seekTo :: "jsnum \<Rightarrow> engine \<Rightarrow> error option \<times> engine" where
  "spec_seekTo v eng =
     (case eng_duration eng of
        None \<Rightarrow> (Some SeekError, eng)
      | Some d \<Rightarrow>
          (None,
           eng\<lparr>eng_position := clamp_position v d,
               eng_checkpoints :=
                 (case eng_episode eng of
                    None \<Rightarrow> eng_checkpoints eng
                  | Some ep \<Rightarrow> (eng_checkpoints eng)(e_id ep \<mapsto> clamp_position v d))\<rparr>))"

definition initial_engine :: engine where
  "initial_engine =
     \<lparr>eng_episode = None, eng_phase = Idle, eng_position = Dec 0 0, eng_duration = None,
      eng_generation = 0, eng_checkpoints = Map.empty\<rparr>"

section \<open>Example runs\<close>

text \<open>A player started on an empty \<^verbatim>\<open>localStorage\<close>.\<close>

definition fresh_player :: podcast_app where
  "fresh_player = new_PodcastApp empty_storage"

text \<open>
  The first sample episode is playing: \<^verbatim>\<open>playEpisode(1)\<close>, the metadata arrived with a
  duration of 2700 seconds, the play promise fulfilled. The position is still \<open>0\<close>.
\<close>

definition playing_first :: podcast_app where
  "playing_first =
     settle_play True 0 (loadedmetadata (media_metadata (Dec 2700 0) (playEpisode 1 fresh_player)))"

text \<open>The same, after the media reached second 124.75 and the progress tick was handled.\<close>

definition playing_first_ticked :: podcast_app where
  "playing_first_ticked = timeupdate (media_at (Dec 12475 (- 2)) playing_first)"


text \<open>
  A browser that supports the playback rates from \<open>1/16\<close> to \<open>16\<close>, as the common ones
  do.
\<close>

definition usual_rates :: "jsnum \<Rightarrow> bool" where
  "usual_rates v = (is_finite v \<and> 1 / 16 \<le> js_val v \<and> js_val v \<le> 16)"

text \<open>The prompt for episode \<open>e1\<close>, saved at second 125 of 2700, on an idle engine.\<close>

definition resume_prompt :: restoration where
  "resume_prompt =
     \<lparr>lastPlaybackState = Some \<lparr>episodeId = ''e1'', position = Dec 125 0\<rparr>,
      episode = Some \<lparr>e_id = ''e1'', e_title = ''E1'', e_duration = Dec 2700 0\<rparr>,
      isVisible = True, isLoading = False\<rparr>"

section \<open>Properties\<close>

subsection \<open>Doubles\<close>

text \<open>
  The powers computed by squaring are the powers, and a rational at or above \<open>2 ^ 1024\<close>
  is rounded to an infinity: the rounding to 53 bits never goes below a power of two that
  the rational has reached.
\<close>

lemma ipow_power: "0 \<le> k \<Longrightarrow> ipow b k = b ^ nat k"
proof (induction b k rule: ipow.induct)
  case (1 b k)
  show ?case
  proof (cases "k \<le> 0")
    case True
    with 1 show ?thesis by (simp add: ipow.simps)
  next
    case False
    then have pos: "0 < k" by simp
    have h: "0 \<le> k div 2" using pos by simp
    have sq: "(b * b) ^ nat (k div 2) = b ^ (2 * nat (k div 2))"
      by (simp add: power_mult power2_eq_square)
    show ?thesis
    proof (cases "even k")
      case True
      have "nat k = 2 * nat (k div 2)" using True pos by (auto elim!: evenE simp: nat_mult_distrib)
      then show ?thesis
        using "1.IH"(1) [OF False True h] True False sq by (subst ipow.simps) simp
    next
      case odd: False
      have "nat k = Suc (2 * nat (k div 2))"
        using odd pos by (auto elim!: oddE simp: nat_add_distrib nat_mult_distrib)
      then show ?thesis
        using "1.IH"(2) [OF False odd h] odd False sq by (subst ipow.simps) simp
    qed
  qed
qed

lemma scale_powi: "scale b k = of_int b powi k"
  by (simp add: scale_def ipow_power power_int_def power_one_over inverse_eq_divide)

lemma bit_length_bounds:
  "0 < n \<Longrightarrow> 1 \<le> bit_length n \<and> 2 ^ nat (bit_length n - 1) \<le> n \<and> n < 2 ^ nat (bit_length n)"
proof (induction n rule: bit_length.induct)
  case (1 n)
  show ?case
  proof (cases "n div 2 \<le> 0")
    case True
    then have n1: "n = 1" using "1.prems" by simp
    have "bit_length (n div 2) = 0" using True by (subst bit_length.simps) simp
    then have "bit_length n = 1" using "1.prems" by (subst bit_length.simps) simp
    then show ?thesis using n1 by simp
  next
    case False
    then have h: "0 < n div 2" by simp
    have np: "\<not> n \<le> 0" using "1.prems" by simp
    note ih = "1.IH" [OF np h]
    have b: "bit_length n = 1 + bit_length (n div 2)"
      using "1.prems" by (subst bit_length.simps) simp
    let ?k = "bit_length (n div 2)"
    have k1: "nat ?k = Suc (nat (?k - 1))" using ih by arith
    have n1: "nat (bit_length n - 1) = nat ?k" using b by simp
    have n2: "nat (bit_length n) = Suc (nat ?k)" using b ih by arith
    have lo: "2 ^ nat ?k \<le> n"
    proof -
      have "2 * 2 ^ nat (?k - 1) \<le> 2 * (n div 2)" using ih by simp
      also have "\<dots> \<le> n" by simp
      finally show ?thesis by (simp add: k1)
    qed
    have hi: "n < 2 ^ Suc (nat ?k)"
    proof -
      have "n div 2 + 1 \<le> 2 ^ nat ?k" using ih by simp
      then have "2 * (n div 2) + 2 \<le> 2 * 2 ^ nat ?k" by simp
      moreover have "n \<le> 2 * (n div 2) + 1" by simp
      ultimately have "n < 2 * 2 ^ nat ?k" by linarith
      then show ?thesis by simp
    qed
    have "1 \<le> bit_length n" using b ih by simp
    then show ?thesis using lo hi by (simp only: n1 n2)
  qed
qed

lemma floor_log2_le:
  assumes "0 < x"
  shows "2 powi (floor_log2 x) \<le> x"
proof -
  obtain p q where pq: "quotient_of x = (p, q)" by (cases "quotient_of x")
  have q: "0 < q" using pq quotient_of_denom_pos by blast
  have x: "x = of_int p / of_int q" using pq quotient_of_div by blast
  have p: "0 < p" using assms q x by (simp add: zero_less_divide_iff)
  let ?d = "bit_length p - bit_length q"
  show ?thesis
  proof (cases "scale 2 ?d \<le> x")
    case True
    then show ?thesis using pq by (simp add: floor_log2_def scale_powi)
  next
    case False
    then have f: "floor_log2 x = ?d - 1" using pq by (simp add: floor_log2_def)
    note bp = bit_length_bounds [OF p]
    note bq = bit_length_bounds [OF q]
    have a: "(2::rat) powi (bit_length p - 1) \<le> of_int p"
    proof -
      have "(of_int (2 ^ nat (bit_length p - 1)) :: rat) \<le> of_int p"
        using bp by (simp only: of_int_le_iff)
      then show ?thesis using bp by (simp add: power_int_def)
    qed
    have b: "(of_int q :: rat) \<le> 2 powi (bit_length q)"
    proof -
      have "(of_int q :: rat) \<le> of_int (2 ^ nat (bit_length q))"
        using bq by (simp only: of_int_le_iff) simp
      then show ?thesis using bq by (simp add: power_int_def)
    qed
    have "(2::rat) powi (?d - 1) * of_int q \<le> 2 powi (?d - 1) * 2 powi (bit_length q)"
      using b by (simp add: mult_left_mono)
    also have "\<dots> = 2 powi (bit_length p - 1)"
      by (simp add: power_int_add [symmetric])
    also have "\<dots> \<le> of_int p" by (rule a)
    finally have "(2::rat) powi (?d - 1) \<le> of_int p / of_int q"
      using q by (simp add: pos_le_divide_eq)
    then show ?thesis using f x by simp
  qed
qed

lemma round_half_even_ge: "of_int N \<le> q \<Longrightarrow> N \<le> round_half_even q"
proof -
  assume "of_int N \<le> q"
  then have "N \<le> \<lfloor>q\<rfloor>" by (simp add: le_floor_iff)
  then show ?thesis by (auto simp: round_half_even_def Let_def)
qed

lemma two_powi_split:
  assumes "e \<le> k"
  shows "of_int (2 ^ nat (k - e)) * 2 powi e = (2::rat) powi k"
proof -
  have "(of_int (2 ^ nat (k - e)) :: rat) = 2 powi (k - e)"
    using assms by (simp add: power_int_def)
  then show ?thesis by (simp add: power_int_add [symmetric])
qed

lemma nearest_double_ge:
  assumes "2 powi K \<le> x" and "- 1074 \<le> K"
  shows "2 powi K \<le> nearest_double x"
proof -
  have "(0::rat) < 2 powi K" by simp
  then have x0: "0 < x" using assms(1) by (rule order.strict_trans2)
  let ?E = "max (floor_log2 x - 52) (- 1074)"
  let ?M = "round_half_even (x / 2 powi ?E)"
  have nd: "nearest_double x = of_int ?M * 2 powi ?E"
    using x0 by (simp add: nearest_double_def Let_def scale_powi)
  have pE: "(0::rat) < 2 powi ?E" by simp
  show ?thesis
  proof (cases "?E \<le> K")
    case True
    let ?N = "(2::int) ^ nat (K - ?E)"
    note sp = two_powi_split [OF True]
    have "(of_int ?N :: rat) = 2 powi K / 2 powi ?E"
      using sp pE by (simp add: nonzero_eq_divide_eq)
    also have "\<dots> \<le> x / 2 powi ?E" using assms pE by (simp only: divide_right_mono less_imp_le)
    finally have "?N \<le> ?M" by (rule round_half_even_ge)
    then have "(of_int ?N :: rat) * 2 powi ?E \<le> of_int ?M * 2 powi ?E"
      using pE by (simp only: mult_le_cancel_right_pos of_int_le_iff)
    then have "(2::rat) powi K \<le> of_int ?M * 2 powi ?E" by (simp only: sp)
    then show ?thesis by (simp only: nd)
  next
    case False
    then have E: "?E = floor_log2 x - 52" using assms(2) by simp
    have "(of_int (2 ^ 52) :: rat) = 2 powi (floor_log2 x) / 2 powi (floor_log2 x - 52)"
      by (simp add: power_int_diff)
    also have "\<dots> = 2 powi (floor_log2 x) / 2 powi ?E" by (simp only: E)
    also have "\<dots> \<le> x / 2 powi ?E"
      using floor_log2_le [OF x0] pE by (simp only: divide_right_mono less_imp_le)
    finally have "2 ^ 52 \<le> ?M" by (rule round_half_even_ge)
    then have "1 \<le> ?M" by simp
    then have "(1::rat) \<le> of_int ?M" by simp
    then have "(1::rat) * 2 powi ?E \<le> of_int ?M * 2 powi ?E"
      by (intro mult_right_mono) simp_all
    then have a: "(2::rat) powi ?E \<le> of_int ?M * 2 powi ?E"
      by (simp only: mult_1)
    have b: "(2::rat) powi K \<le> 2 powi ?E"
    proof (rule power_int_increasing)
      show "K \<le> ?E" using False by linarith
      show "(1::rat) \<le> 2" by simp
    qed
    from order_trans [OF b a] show ?thesis by (simp only: nd)
  qed
qed

lemma double_of_overflow:
  assumes "2 powi 1024 \<le> x"
  shows "double_of x = PosInf"
proof -
  have "- 1074 \<le> (1024::int)" by simp
  note n = nearest_double_ge [OF assms this]
  have "0 < nearest_double x" using n by (rule order.strict_trans2 [rotated]) simp
  then show ?thesis using n by (simp add: double_of_def Let_def scale_powi)
qed

text \<open>A literal beyond the range of the doubles is read as \<^verbatim>\<open>Infinity\<close>.\<close>

lemma parseFloat_overflow: "parseFloat ''1e400'' = PosInf"
proof -
  have "(2::rat) powi 1024 \<le> dec_val 1 400" by (simp add: dec_val_def)
  from double_of_overflow [OF this] show ?thesis
    by (simp add: parseFloat_def trim_start_def exponent_part_def is_digit_def is_space_def
        digit_val_def digits_value_def Let_def)
qed

text \<open>\<^verbatim>\<open>0.1 + 0.2\<close> is the double that prints as \<^verbatim>\<open>0.30000000000000004\<close>.\<close>

lemma tenth_plus_fifth: "js_add (Dec 1 (- 1)) (Dec 2 (- 1)) = Dec 30000000000000004 (- 17)"
  by code_simp

subsection \<open>The restoration prompt\<close>

text \<open>
  Claim C9 at the input where the code departs from it: the checkpoint names the episode
  \<open>e1\<close> at position \<open>125\<close>, and the catalogue returns nothing for it. No prompt is shown,
  but the checkpoint is still there afterwards; only a lookup that throws clears it.
\<close>

theorem restoration_not_found_keeps_checkpoint:
  "lastPlaybackState
     (useEffect_lastPlaybackState (\<lambda>i. Inr None)
        \<lparr>lastPlaybackState = Some \<lparr>episodeId = ''e1'', position = Dec 125 0\<rparr>,
         episode = None, isVisible = False, isLoading = False\<rparr>)
     = Some \<lparr>episodeId = ''e1'', position = Dec 125 0\<rparr> \<and>
   \<not> prompt_shown
     (useEffect_lastPlaybackState (\<lambda>i. Inr None)
        \<lparr>lastPlaybackState = Some \<lparr>episodeId = ''e1'', position = Dec 125 0\<rparr>,
         episode = None, isVisible = False, isLoading = False\<rparr>) \<and>
   lastPlaybackState
     (useEffect_lastPlaybackState (\<lambda>i. Inl RestorationError)
        \<lparr>lastPlaybackState = Some \<lparr>episodeId = ''e1'', position = Dec 125 0\<rparr>,
         episode = None, isVisible = False, isLoading = False\<rparr>)
     = None"
  by (simp add: useEffect_lastPlaybackState_def loadEpisodeForRestoration_def
      prompt_shown_def clearLastPlaybackState_def)

text \<open>
  The Resume button, for any audio service: when both calls succeed the engine is the one
  that \<^verbatim>\<open>seekTo\<close> leaves after \<^verbatim>\<open>loadEpisode\<close>; nothing else is called on the service.
\<close>

lemma handleRestore_calls:
  assumes "episode c = Some ep" and "lastPlaybackState c = Some lps"
    and "loadEpisode ep eng = (None, eng1)" and "seekTo (position lps) eng1 = (None, eng2)"
  shows "handleRestore loadEpisode seekTo (c, eng) =
           ((clearLastPlaybackState c)\<lparr>isVisible := False, isLoading := False\<rparr>, eng2)"
  using assms by (simp add: handleRestore_def)

lemma clamp_position_inside:
  assumes "0 \<le> dec_val m e" and "dec_val m e \<le> dec_val n f"
  shows "is_finite (clamp_position (Dec m e) (Dec n f))"
    and "js_val (clamp_position (Dec m e) (Dec n f)) = dec_val m e"
  using assms by (auto simp: clamp_position_def Math_max_def Math_min_def dec_val_def)

text \<open>
  Claim C8: the prompt is up for an episode that the catalogue resolved, the user presses
  Resume, and the backend delivers the metadata. The coordinator calls \<^verbatim>\<open>loadEpisode\<close>
  for that episode and then \<^verbatim>\<open>seekTo\<close> with the saved position, and nothing that starts
  playback: the engine is left paused on the episode, at the saved position (a position
  between \<open>0\<close> and the duration), and the checkpoint and the prompt are gone.
\<close>

theorem handleRestore_resume_leaves_paused:
  assumes "episode c = Some ep" and "lastPlaybackState c = Some lps"
    and "position lps = Dec m e" and "0 \<le> dec_val m e" and "dec_val m e \<le> dec_val n f"
  shows
    "eng_phase (snd (handleRestore (spec_loadEpisode (MetadataReady (Dec n f))) spec_seekTo
        (c, eng))) = Paused \<and>
     eng_episode (snd (handleRestore (spec_loadEpisode (MetadataReady (Dec n f))) spec_seekTo
        (c, eng))) = Some ep \<and>
     is_finite (eng_position (snd (handleRestore (spec_loadEpisode (MetadataReady (Dec n f)))
        spec_seekTo (c, eng)))) \<and>
     js_val (eng_position (snd (handleRestore (spec_loadEpisode (MetadataReady (Dec n f)))
        spec_seekTo (c, eng)))) = dec_val m e \<and>
     lastPlaybackState (fst (handleRestore (spec_loadEpisode (MetadataReady (Dec n f)))
        spec_seekTo (c, eng))) = None \<and>
     prompt_shown (fst (handleRestore (spec_loadEpisode (MetadataReady (Dec n f))) spec_seekTo
        (c, eng))) = False \<and>
     snd (handleRestore (spec_loadEpisode (MetadataReady (Dec n f))) spec_seekTo (c, eng)) =
       snd (spec_seekTo (position lps)
              (snd (spec_loadEpisode (MetadataReady (Dec n f)) ep eng)))"
  using assms clamp_position_inside [OF assms(4,5)]
  by (simp add: handleRestore_def spec_loadEpisode_def spec_seekTo_def prompt_shown_def
      clearLastPlaybackState_def)

text \<open>Resume on the prompt for \<open>e1\<close> at second 125 of 2700: paused at 125, no prompt left.\<close>

theorem handleRestore_resume_leaves_paused_witness:
  "eng_phase (snd (handleRestore (spec_loadEpisode (MetadataReady (Dec 2700 0))) spec_seekTo
      (resume_prompt, initial_engine))) = Paused \<and>
   js_val (eng_position (snd (handleRestore (spec_loadEpisode (MetadataReady (Dec 2700 0)))
      spec_seekTo (resume_prompt, initial_engine)))) = 125 \<and>
   lastPlaybackState (fst (handleRestore (spec_loadEpisode (MetadataReady (Dec 2700 0)))
      spec_seekTo (resume_prompt, initial_engine))) = None \<and>
   prompt_shown (fst (handleRestore (spec_loadEpisode (MetadataReady (Dec 2700 0)))
      spec_seekTo (resume_prompt, initial_engine))) = False"
proof -
  have h:
    "episode resume_prompt = Some \<lparr>e_id = ''e1'', e_title = ''E1'', e_duration = Dec 2700 0\<rparr>"
    "lastPlaybackState resume_prompt = Some \<lparr>episodeId = ''e1'', position = Dec 125 0\<rparr>"
    "position \<lparr>episodeId = ''e1'', position = Dec 125 0\<rparr> = Dec 125 0"
    "0 \<le> dec_val 125 0" "dec_val 125 0 \<le> dec_val 2700 0"
    by (simp_all add: resume_prompt_def dec_val_def)
  have v: "dec_val 125 0 = 125" by (simp add: dec_val_def)
  from handleRestore_resume_leaves_paused [OF h, of initial_engine] v
  show ?thesis by metis
qed

subsection \<open>What the commands, listeners and tasks of the player change\<close>

lemma reject_plays_id: "reject_plays ps s = s"
proof (induction ps arbitrary: s)
  case Nil
  show ?case by (simp add: reject_plays_def)
next
  case (Cons cb ps)
  have "play_catch cb s = s" by (cases cb) simp_all
  with Cons show ?case by (simp add: reject_plays_def)
qed








lemma timeupdate_writes:
  assumes "currentEpisode s = Some e" and "js_gt (a_currentTime (audio s)) (Dec 0 0)"
  shows "localStorage (timeupdate s) =
           setItem (progress_key (ep_id e)) (Text (Number_toString (a_currentTime (audio s))))
             (localStorage s)"
    and "currentEpisode (timeupdate s) = Some e"
  using assms by (simp_all add: timeupdate_def saveProgress_def)

lemma timeupdate_skips:
  assumes "\<not> js_gt (a_currentTime (audio s)) (Dec 0 0)"
  shows "localStorage (timeupdate s) = localStorage s"
  using assms by (simp add: timeupdate_def saveProgress_def split: option.splits)

lemma timeupdate_keeps:
  "currentEpisode (timeupdate s) = currentEpisode s"
  "audio (timeupdate s) = audio s"
  "isPlaying (timeupdate s) = isPlaying s"
  "playPromises (timeupdate s) = playPromises s"
  "tasks (timeupdate s) = tasks s"
  "episodes (timeupdate s) = episodes s"
  by (simp_all add: timeupdate_def saveProgress_def split: option.splits)

lemma getItem_setItem: "getItem k (setItem k v st) = Some v"
  by (simp add: getItem_def setItem_def)

lemma media_at_currentTime: "a_currentTime (audio (media_at p s)) = p"
  by (simp add: media_at_def a_currentTime_def)

lemma run_task_keeps:
  "currentEpisode (run_task t s) = currentEpisode s"
  "audio (run_task t s) = audio s"
  by (cases t; simp add: timeupdate_keeps reject_plays_id)+

lemma run_task_store:
  "localStorage (run_task t s) = localStorage (timeupdate s)"
  by (cases t) (simp_all add: reject_plays_id)

lemma foldl_run_task_keeps:
  "currentEpisode (foldl (\<lambda>s1 t. run_task t s1) s ts) = currentEpisode s \<and>
   audio (foldl (\<lambda>s1 t. run_task t s1) s ts) = audio s"
  by (induction ts arbitrary: s) (simp_all add: run_task_keeps)


lemma foldl_run_task_skips:
  assumes "\<not> js_gt (a_currentTime (audio s)) (Dec 0 0)"
  shows "localStorage (foldl (\<lambda>s1 t. run_task t s1) s ts) = localStorage s"
  using assms
proof (induction ts arbitrary: s)
  case Nil
  show ?case by simp
next
  case (Cons t ts)
  have "\<not> js_gt (a_currentTime (audio (run_task t s))) (Dec 0 0)"
    using Cons.prems by (simp add: run_task_keeps)
  from Cons.IH [OF this] show ?case
    using timeupdate_skips [OF Cons.prems] by (simp add: run_task_store)
qed


subsection \<open>Playback rate\<close>

lemma parseFloat_allowed_rates:
  "map parseFloat [''0.5'', ''0.75'', ''1'', ''1.25'', ''1.5'', ''2''] =
     [Dec 5 (- 1), Dec 75 (- 2), Dec 1 0, Dec 125 (- 2), Dec 15 (- 1), Dec 2 0]"
  by code_simp

text \<open>
  Claim C6, as the player has it. \<^verbatim>\<open>setPlaybackRate(rate)\<close> checks no set of allowed rates
  and raises no \<^verbatim>\<open>InvalidRateError\<close>: whatever the rate, \<open>playbackRate\<close> is overwritten with
  the number that \<^verbatim>\<open>parseFloat\<close> reads from it. That number is then assigned to the audio
  element. A finite rate that the browser supports is set there, and nothing is thrown.
  For a number that is not finite the element throws a \<^verbatim>\<open>TypeError\<close>, for a rate that the
  browser does not support a \<^verbatim>\<open>NotSupportedError\<close>; the element then keeps its rate, while
  \<open>playbackRate\<close> has been overwritten already. The six rates of the settings menu are
  read as \<open>0.5\<close>, \<open>0.75\<close>, \<open>1\<close>, \<open>1.25\<close>, \<open>1.5\<close> and \<open>2\<close>.
\<close>

theorem setPlaybackRate_overwrites_without_check:
  "playbackRate (setPlaybackRate supported rate s) = parseFloat rate \<and>
   (is_finite (parseFloat rate) \<and> supported (parseFloat rate) \<longrightarrow>
      a_playbackRate (audio (setPlaybackRate supported rate s)) = parseFloat rate \<and>
      uncaught (setPlaybackRate supported rate s) = uncaught s) \<and>
   (\<not> is_finite (parseFloat rate) \<longrightarrow>
      audio (setPlaybackRate supported rate s) = audio s \<and>
      uncaught (setPlaybackRate supported rate s) = uncaught s @ [TypeError]) \<and>
   (is_finite (parseFloat rate) \<and> \<not> supported (parseFloat rate) \<longrightarrow>
      audio (setPlaybackRate supported rate s) = audio s \<and>
      uncaught (setPlaybackRate supported rate s) = uncaught s @ [NotSupportedError]) \<and>
   map parseFloat [''0.5'', ''0.75'', ''1'', ''1.25'', ''1.5'', ''2''] =
     [Dec 5 (- 1), Dec 75 (- 2), Dec 1 0, Dec 125 (- 2), Dec 15 (- 1), Dec 2 0]"
  using parseFloat_allowed_rates
  by (simp add: setPlaybackRate_def audio_set_playbackRate_def)

text \<open>
  On a fresh player, in a browser that supports the rates from \<open>1/16\<close> to \<open>16\<close>: the rate
  \<^verbatim>\<open>1.5\<close> is set on the element; \<^verbatim>\<open>fast\<close> is read as \<^verbatim>\<open>NaN\<close>, which is stored while the
  element throws a \<^verbatim>\<open>TypeError\<close> and stays at \<open>1\<close>; \<open>100\<close> is stored while the element
  throws a \<^verbatim>\<open>NotSupportedError\<close> and stays at \<open>1\<close>.
\<close>

theorem setPlaybackRate_overwrites_without_check_witness:
  "a_playbackRate (audio (setPlaybackRate usual_rates ''1.5'' fresh_player)) = Dec 15 (- 1) \<and>
   uncaught (setPlaybackRate usual_rates ''1.5'' fresh_player) = [] \<and>
   playbackRate (setPlaybackRate usual_rates ''fast'' fresh_player) = NaN \<and>
   a_playbackRate (audio (setPlaybackRate usual_rates ''fast'' fresh_player)) = Dec 1 0 \<and>
   uncaught (setPlaybackRate usual_rates ''fast'' fresh_player) = [TypeError] \<and>
   playbackRate (setPlaybackRate usual_rates ''100'' fresh_player) = Dec 1 2 \<and>
   a_playbackRate (audio (setPlaybackRate usual_rates ''100'' fresh_player)) = Dec 1 0 \<and>
   uncaught (setPlaybackRate usual_rates ''100'' fresh_player) = [NotSupportedError]"
proof -
  have p1: "parseFloat ''1.5'' = Dec 15 (- 1)" by code_simp
  have p2: "parseFloat ''fast'' = NaN" by code_simp
  have p3: "parseFloat ''100'' = Dec 1 2" by code_simp
  have u: "usual_rates (Dec 15 (- 1))" "\<not> usual_rates (Dec 1 2)"
    by (simp_all add: usual_rates_def dec_val_def)
  have f: "uncaught fresh_player = []" "a_playbackRate (audio fresh_player) = Dec 1 0"
    by code_simp+
  from setPlaybackRate_overwrites_without_check [of usual_rates "''1.5''" fresh_player]
    setPlaybackRate_overwrites_without_check [of usual_rates "''fast''" fresh_player]
    setPlaybackRate_overwrites_without_check [of usual_rates "''100''" fresh_player]
    p1 p2 p3 u f
  show ?thesis by simp
qed

text \<open>
  Claim C6, as stated, fails: the rate \<open>3\<close> is outside the allowed set, and setting it on
  a fresh player changes \<open>playbackRate\<close> from \<open>1\<close> to \<open>3\<close>, on the audio element as well,
  and nothing is thrown.
\<close>

theorem setPlaybackRate_outside_set_counterexample:
  "playbackRate fresh_player = Dec 1 0 \<and>
   playbackRate (setPlaybackRate usual_rates ''3'' fresh_player) = Dec 3 0 \<and>
   a_playbackRate (audio (setPlaybackRate usual_rates ''3'' fresh_player)) = Dec 3 0 \<and>
   uncaught (setPlaybackRate usual_rates ''3'' fresh_player) = []"
  by code_simp

subsection \<open>Switching episodes\<close>



subsection \<open>Loading an episode with saved progress\<close>




subsection \<open>Pausing\<close>

text \<open>
  Claim C3, as the player has it. While an episode is playing (\<open>isPlaying\<close> is set and the
  audio element is not paused), \<^verbatim>\<open>togglePlayPause\<close> pauses the element and clears
  \<open>isPlaying\<close>. It writes nothing itself, but pausing queues a task on the element that
  fires \<^verbatim>\<open>timeupdate\<close>, and the listener of that event saves the progress: once the queued
  tasks have run, the checkpoint of the current episode is the position at which the
  element was paused, if that position is greater than \<open>0\<close>. At a position that is not
  greater than \<open>0\<close> the store is left as it was.
\<close>

theorem pause_saves_positive_position:
  assumes "currentEpisode s = Some e" and "isPlaying s" and "\<not> paused (audio s)"
  shows
    "paused (audio (togglePlayPause s)) \<and> \<not> isPlaying (togglePlayPause s) \<and>
     localStorage (togglePlayPause s) = localStorage s \<and>
     tasks (togglePlayPause s) = tasks s @ [Pause_task (playPromises s)] \<and>
     (js_gt (a_currentTime (audio s)) (Dec 0 0) \<longrightarrow>
        getItem (progress_key (ep_id e)) (localStorage (run_tasks (togglePlayPause s))) =
          Some (Text (Number_toString (a_currentTime (audio s))))) \<and>
     (\<not> js_gt (a_currentTime (audio s)) (Dec 0 0) \<longrightarrow>
        localStorage (run_tasks (togglePlayPause s)) = localStorage s)"
proof -
  let ?t = "togglePlayPause s"
  let ?f = "\<lambda>s1 t. run_task t s1"
  let ?s0 = "?t\<lparr>tasks := []\<rparr>"
  have t: "?t = (audio_pause s)\<lparr>isPlaying := False\<rparr>"
    using assms(1,2) by (simp add: togglePlayPause_def)
  have 1: "paused (audio ?t)" "\<not> isPlaying ?t" "localStorage ?t = localStorage s"
    "tasks ?t = tasks s @ [Pause_task (playPromises s)]"
    using assms(3) by (simp_all add: t audio_pause_def Let_def)
  have c: "currentEpisode ?t = Some e"
    using assms(1,3) by (simp add: t audio_pause_def Let_def)
  have a: "a_currentTime (audio ?t) = a_currentTime (audio s)"
    using assms(3) by (simp add: t audio_pause_def Let_def a_currentTime_def select_resource_def)
  let ?m = "foldl ?f ?s0 (tasks s)"
  have r: "run_tasks ?t = run_task (Pause_task (playPromises s)) ?m"
    by (simp add: run_tasks_def 1(4))
  have k: "currentEpisode ?m = Some e" "a_currentTime (audio ?m) = a_currentTime (audio s)"
    using foldl_run_task_keeps [of ?s0 "tasks s"] c a by simp_all
  have 5: "getItem (progress_key (ep_id e)) (localStorage (run_tasks ?t)) =
      Some (Text (Number_toString (a_currentTime (audio s))))"
    if "js_gt (a_currentTime (audio s)) (Dec 0 0)"
    using timeupdate_writes(1) [of ?m e] k that
    by (simp add: r reject_plays_id getItem_setItem)
  have 6: "localStorage (run_tasks ?t) = localStorage s"
    if "\<not> js_gt (a_currentTime (audio s)) (Dec 0 0)"
  proof -
    have "\<not> js_gt (a_currentTime (audio ?s0)) (Dec 0 0)" using that a by simp
    from foldl_run_task_skips [OF this, of "tasks ?t"] show ?thesis
      using 1(3) by (simp add: run_tasks_def)
  qed
  from 1 5 6 show ?thesis by blast
qed

text \<open>
  Pausing at second 125, after the tick at 124.75: the store holds \<open>124.75\<close> when
  \<^verbatim>\<open>togglePlayPause\<close> returns and \<open>125\<close> once the queued task has run.
\<close>

theorem pause_saves_positive_position_witness:
  "paused (audio (togglePlayPause (media_at (Dec 125 0) playing_first_ticked))) \<and>
   getItem (progress_key 1)
     (localStorage (togglePlayPause (media_at (Dec 125 0) playing_first_ticked))) =
     Some (Text ''124.75'') \<and>
   getItem (progress_key 1)
     (localStorage (run_tasks (togglePlayPause (media_at (Dec 125 0) playing_first_ticked)))) =
     Some (Text ''125'')"
proof -
  let ?e = "sample_episodes ! 0"
  let ?s = "media_at (Dec 125 0) playing_first_ticked"
  have h: "currentEpisode ?s = Some ?e" "isPlaying ?s" "\<not> paused (audio ?s)"
    by code_simp+
  have p: "js_gt (a_currentTime (audio ?s)) (Dec 0 0)" by code_simp
  have e1: "ep_id ?e = 1" by code_simp
  have e2: "Number_toString (a_currentTime (audio ?s)) = ''125''" by code_simp
  have e3: "getItem (progress_key 1) (localStorage ?s) = Some (Text ''124.75'')" by code_simp
  from pause_saves_positive_position [OF h] p e1 e2 e3 show ?thesis by simp
qed

text \<open>
  Claim C3, as stated, fails at position \<open>0\<close>. The first episode is playing and stands at
  \<open>0\<close>; it is paused, and the task that pausing queued has run: the episode has no
  checkpoint.
\<close>

theorem pause_at_zero_counterexample:
  "currentEpisode playing_first = Some (sample_episodes ! 0) \<and>
   isPlaying playing_first \<and> \<not> paused (audio playing_first) \<and>
   a_currentTime (audio playing_first) = Dec 0 0 \<and>
   tasks (togglePlayPause playing_first) = [Pause_task []] \<and>
   paused (audio (run_tasks (togglePlayPause playing_first))) \<and>
   tasks (run_tasks (togglePlayPause playing_first)) = [] \<and>
   getItem (progress_key 1) (localStorage (run_tasks (togglePlayPause playing_first))) = None"
  by code_simp

subsection \<open>Skipping\<close>

text \<open>
  Claim C2 at the input where the code departs from it, its own example: the first episode
  is loaded with a duration of 2700 and stands at position \<open>0\<close>; \<^verbatim>\<open>skipForward\<close> leaves it
  at \<open>0\<close>, not at 30, and seeks nowhere, since the test \<^verbatim>\<open>if (this.audio.currentTime)\<close>
  takes \<open>0\<close> for false. From second 10 the two skips do what the claim says: forward to 40
  (the decimal \<open>4 * 10 ^ 1\<close>), backward to \<open>0\<close>.
\<close>

theorem skipForward_at_zero_stays:
  "a_currentTime (audio playing_first) = Dec 0 0 \<and> duration playing_first = Dec 2700 0 \<and>
   a_currentTime (audio (skipForward playing_first)) = Dec 0 0 \<and>
   tasks (skipForward playing_first) = [] \<and>
   a_currentTime (audio (skipForward (media_at (Dec 10 0) playing_first))) = Dec 4 1 \<and>
   a_currentTime (audio (skipBackward (media_at (Dec 10 0) playing_first))) = Dec 0 0"
  by code_simp

text \<open>
  The positions are doubles: back from second 20.2 the position is the double nearest to
  \<open>20.2 - 15\<close>, which prints as \<^verbatim>\<open>5.199999999999999\<close>.
\<close>

lemma skipBackward_rounds:
  "a_currentTime (audio (skipBackward (media_at (Dec 202 (- 1)) playing_first))) =
     Dec 5199999999999999 (- 15)"
  by code_simp

subsection \<open>Progress ticks and the store\<close>

lemma tick_writes:
  assumes "currentEpisode s = Some e" and "js_gt p (Dec 0 0)"
  shows "localStorage (timeupdate (media_at p s)) =
           setItem (progress_key (ep_id e)) (Text (Number_toString p)) (localStorage s)"
    and "currentEpisode (timeupdate (media_at p s)) = Some e"
  using timeupdate_writes [of "media_at p s" e] assms
  by (simp_all add: media_at_def a_currentTime_def)

lemma deliver_ticks_writes:
  assumes "currentEpisode s = Some e" and "\<forall>tp \<in> set ticks. js_gt (snd tp) (Dec 0 0)"
  shows "fst (deliver_ticks ticks s) = map fst ticks \<and>
         setItem_calls (localStorage (snd (deliver_ticks ticks s))) =
           setItem_calls (localStorage s) + length ticks"
  using assms
proof (induction ticks arbitrary: s)
  case Nil
  then show ?case by simp
next
  case (Cons tp ticks)
  obtain t p where tp: "tp = (t, p)" by (cases tp)
  let ?s1 = "timeupdate (media_at p s)"
  have p: "js_gt p (Dec 0 0)" using Cons.prems(2) tp by simp
  note w = tick_writes [OF Cons.prems(1) p]
  have c: "setItem_calls (localStorage ?s1) = Suc (setItem_calls (localStorage s))"
    using w(1) by (simp add: setItem_def)
  have ih: "fst (deliver_ticks ticks ?s1) = map fst ticks \<and>
     setItem_calls (localStorage (snd (deliver_ticks ticks ?s1))) =
       setItem_calls (localStorage ?s1) + length ticks"
    using Cons.IH [OF w(2)] Cons.prems(2) by simp
  show ?case
    using ih c by (simp add: tp Let_def case_prod_beta)
qed

text \<open>
  Claim C4, as the player has it. Nothing throttles the writes: while an episode is
  current, every progress tick at a position greater than \<open>0\<close> calls \<^verbatim>\<open>setItem\<close>. The
  writes happen at the times of the ticks, one for one, however close the ticks are.
\<close>

theorem every_tick_writes:
  assumes "currentEpisode s = Some e" and "\<forall>tp \<in> set ticks. js_gt (snd tp) (Dec 0 0)"
  shows "fst (deliver_ticks ticks s) = map fst ticks \<and>
         setItem_calls (localStorage (snd (deliver_ticks ticks s))) =
           setItem_calls (localStorage s) + length ticks"
  using assms by (rule deliver_ticks_writes)

text \<open>Three ticks a quarter of a second apart, at 1, 1.25 and 1.5 seconds: three writes.\<close>

theorem every_tick_writes_witness:
  "fst (deliver_ticks [(0, Dec 1 0), (1 / 4, Dec 125 (- 2)), (1 / 2, Dec 15 (- 1))]
      playing_first) = [0, 1 / 4, 1 / 2] \<and>
   setItem_calls (localStorage (snd (deliver_ticks
      [(0, Dec 1 0), (1 / 4, Dec 125 (- 2)), (1 / 2, Dec 15 (- 1))] playing_first))) =
     setItem_calls (localStorage playing_first) + 3"
proof -
  have h1: "currentEpisode playing_first = Some (sample_episodes ! 0)" by code_simp
  have h2: "\<forall>tp \<in> set [(0::rat, Dec 1 0), (1 / 4, Dec 125 (- 2)), (1 / 2, Dec 15 (- 1))].
      js_gt (snd tp) (Dec 0 0)"
    by (simp add: js_gt_def dec_val_def)
  from every_tick_writes [OF h1 h2] show ?thesis by simp
qed

text \<open>
  Claim C4, as stated, fails: two ticks one millisecond apart are both written, so the
  writes are not even a second apart.
\<close>

theorem throttling_counterexample:
  "fst (deliver_ticks [(0, Dec 1 0), (1 / 1000, Dec 1001 (- 3))] playing_first) =
     [0, 1 / 1000] \<and>
   throttled 1 (fst (deliver_ticks [(0, Dec 1 0), (1 / 1000, Dec 1001 (- 3))] playing_first)) =
     False"
  by code_simp




subsection \<open>Digits and their characters\<close>

lemma of_char_digit_char:
  assumes "0 \<le> d" and "d < 10"
  shows "(of_char (digit_char d) :: int) = 48 + d"
proof -
  have "(48 + d) mod 256 = 48 + d" using assms by simp
  then show ?thesis by (simp add: digit_char_def)
qed

lemma digit_char_facts:
  assumes "0 \<le> d" and "d < 10"
  shows "radix_val (digit_char d) = d"
    and "is_radix_digit 10 (digit_char d)"
    and "\<not> is_space (digit_char d)"
    and "digit_char d \<noteq> CHR ''-''" and "digit_char d \<noteq> CHR ''+''"
    and "digit_char d \<noteq> CHR ''x''" and "digit_char d \<noteq> CHR ''X''"
proof -
  note c = of_char_digit_char [OF assms]
  show "radix_val (digit_char d) = d"
    using assms by (simp add: radix_val_def c Let_def)
  then show "is_radix_digit 10 (digit_char d)"
    using assms by (simp add: is_radix_digit_def)
  show "\<not> is_space (digit_char d)"
    using assms by (simp add: is_space_def c)
  show "digit_char d \<noteq> CHR ''-''" using c assms by auto
  show "digit_char d \<noteq> CHR ''+''" using c assms by auto
  show "digit_char d \<noteq> CHR ''x''" using c assms by auto
  show "digit_char d \<noteq> CHR ''X''" using c assms by auto
qed

lemma dot_not_digit: "\<not> is_radix_digit 10 CHR ''.''"
  by (simp add: is_radix_digit_def radix_val_def)

lemma digit_char_0: "digit_char 0 = CHR ''0''"
  by code_simp

lemma digits_value_snoc: "digits_value R (ds @ [d]) = R * digits_value R ds + d"
  by (simp add: digits_value_def)

lemma digits_value_append:
  "digits_value 10 (xs @ ys) = digits_value 10 xs * 10 ^ length ys + digits_value 10 ys"
proof (induction ys rule: rev_induct)
  case Nil
  then show ?case by (simp add: digits_value_def)
next
  case (snoc y ys)
  have "digits_value 10 (xs @ ys @ [y]) = 10 * digits_value 10 (xs @ ys) + y"
    using digits_value_snoc [of 10 "xs @ ys" y] by simp
  then show ?case
    using snoc by (simp add: digits_value_snoc algebra_simps)
qed

lemma digits_value_bounds:
  assumes "digit_list ds"
  shows "0 \<le> digits_value 10 ds \<and> digits_value 10 ds < 10 ^ length ds"
  using assms
proof (induction ds rule: rev_induct)
  case Nil
  then show ?case by (simp add: digits_value_def)
next
  case (snoc d ds)
  then have "0 \<le> digits_value 10 ds" "digits_value 10 ds < 10 ^ length ds" "0 \<le> d" "d < 10"
    by (simp_all add: digit_list_def)
  then show ?case
    by (simp add: digits_value_snoc)
qed

lemma digits_value_zeros: "digits_value 10 (replicate k 0) = 0"
proof (induction k)
  case 0
  then show ?case by (simp add: digits_value_def)
next
  case (Suc k)
  have "replicate (Suc k) (0::int) = replicate k 0 @ [0]"
    by (simp add: replicate_append_same)
  then show ?case using Suc by (simp only: digits_value_snoc)
qed

lemma digits_value_take:
  assumes "digit_list ds" and "j \<le> length ds"
  shows "digits_value 10 (take j ds) = digits_value 10 ds div 10 ^ (length ds - j)"
proof -
  have dl: "digit_list (drop j ds)"
    using assms(1) by (auto simp: digit_list_def dest: in_set_dropD)
  note b = digits_value_bounds [OF dl]
  have "digits_value 10 ds =
      digits_value 10 (take j ds) * 10 ^ (length ds - j) + digits_value 10 (drop j ds)"
    using digits_value_append [of "take j ds" "drop j ds"] by simp
  then show ?thesis
    using b by simp
qed

lemma digits10_digit_list: "0 \<le> m \<Longrightarrow> digit_list (digits10 m)"
proof (induction m rule: digits10.induct)
  case (1 n)
  show ?case
  proof (cases "n < 10")
    case True
    then show ?thesis using 1 by (simp add: digits10.simps [of n] digit_list_def)
  next
    case False
    then have "digit_list (digits10 (n div 10))" using 1 by simp
    then show ?thesis using False by (simp add: digits10.simps [of n] digit_list_def)
  qed
qed

lemma digits10_value: "0 \<le> m \<Longrightarrow> digits_value 10 (digits10 m) = m"
proof (induction m rule: digits10.induct)
  case (1 n)
  show ?case
  proof (cases "n < 10")
    case True
    then show ?thesis by (simp add: digits10.simps [of n] digits_value_def)
  next
    case False
    then have "digits_value 10 (digits10 (n div 10)) = n div 10" using 1 by simp
    then show ?thesis using False by (simp add: digits10.simps [of n] digits_value_snoc)
  qed
qed

lemma digits10_hd: "0 < m \<Longrightarrow> digits10 m \<noteq> [] \<and> hd (digits10 m) \<noteq> 0"
proof (induction m rule: digits10.induct)
  case (1 n)
  show ?case
  proof (cases "n < 10")
    case True
    then show ?thesis using 1 by (simp add: digits10.simps [of n])
  next
    case False
    then have "digits10 (n div 10) \<noteq> [] \<and> hd (digits10 (n div 10)) \<noteq> 0" using 1 by simp
    then show ?thesis using False by (simp add: digits10.simps [of n])
  qed
qed

lemma digits_value_lower:
  assumes "digit_list ds" and "ds \<noteq> []" and "hd ds \<noteq> 0"
  shows "10 ^ (length ds - 1) \<le> digits_value 10 ds"
proof -
  obtain d r where ds: "ds = d # r" using assms(2) by (cases ds) auto
  have d: "1 \<le> d" using assms(1,3) ds by (auto simp: digit_list_def)
  have r: "digit_list r" using assms(1) ds by (simp add: digit_list_def)
  define P :: int where "P = 10 ^ length r"
  have v: "digits_value 10 ds = d * P + digits_value 10 r"
    using digits_value_append [of "[d]" r] ds by (simp add: digits_value_def P_def)
  have "0 \<le> digits_value 10 r" using digits_value_bounds [OF r] by simp
  moreover have "P \<le> d * P"
    using d by (simp add: mult_le_cancel_right1 P_def)
  ultimately have "P \<le> digits_value 10 ds" using v by linarith
  then show ?thesis using ds by (simp add: P_def)
qed

subsection \<open>Reading back what was printed\<close>

lemma dec_val_shift:
  assumes "0 \<le> d"
  shows "dec_val (m * 10 ^ nat d) (e - d) = dec_val m e"
proof -
  have "(10::rat) ^ nat d = 10 powi d"
    using assms by (simp add: power_int_def)
  moreover have "(10::rat) powi d * 10 powi (e - d) = 10 powi e"
    by (simp add: power_int_add [symmetric])
  ultimately show ?thesis
    by (simp add: dec_val_def mult.assoc)
qed

lemma takeWhile_digits:
  assumes "digit_list ds" and "rest = [] \<or> (\<exists>r. rest = CHR ''.'' # r)"
  shows "takeWhile (is_radix_digit 10) (map digit_char ds @ rest) = map digit_char ds"
proof -
  have a: "\<forall>c \<in> set (map digit_char ds). is_radix_digit 10 c"
    using assms(1) digit_char_facts(2) by (auto simp: digit_list_def)
  have b: "takeWhile (is_radix_digit 10) rest = []"
    using assms(2) dot_not_digit by auto
  have "takeWhile (is_radix_digit 10) (map digit_char ds @ rest) =
      map digit_char ds @ takeWhile (is_radix_digit 10) rest"
    by (rule takeWhile_append2) (use a in blast)
  then show ?thesis using b by simp
qed

lemma map_radix_val_digits:
  assumes "digit_list ds"
  shows "map radix_val (map digit_char ds) = ds"
  using assms digit_char_facts(1) by (auto simp: digit_list_def map_idI)

lemma parseInt_digits:
  assumes "digit_list ds" and "ds \<noteq> []"
    and "rest = [] \<or> (\<exists>r. rest = CHR ''.'' # r)"
  shows "parseInt (map digit_char ds @ rest) = Dec (digits_value 10 ds) 0"
proof -
  obtain d ds' where ds: "ds = d # ds'" using assms(2) by (cases ds) auto
  have d: "0 \<le> d" "d < 10" using assms(1) ds by (simp_all add: digit_list_def)
  let ?S = "map digit_char ds @ rest"
  have S: "?S = digit_char d # (map digit_char ds' @ rest)" using ds by simp
  have trim: "trim_start ?S = ?S"
    using digit_char_facts(3) [OF d] by (simp add: trim_start_def S)
  have sgn: "take 1 ?S \<noteq> ''-''" "take 1 ?S \<noteq> ''+''"
    using digit_char_facts(4,5) [OF d] by (simp_all add: S)
  have hex: "take 2 ?S \<noteq> ''0x''" "take 2 ?S \<noteq> ''0X''"
  proof -
    show "take 2 ?S \<noteq> ''0x''"
    proof (cases ds')
      case Nil
      then show ?thesis using assms(3) by (auto simp: S)
    next
      case (Cons d2 ds2)
      then have "0 \<le> d2" "d2 < 10" using assms(1) ds by (simp_all add: digit_list_def)
      from digit_char_facts(6) [OF this] show ?thesis by (simp add: S Cons)
    qed
    show "take 2 ?S \<noteq> ''0X''"
    proof (cases ds')
      case Nil
      then show ?thesis using assms(3) by (auto simp: S)
    next
      case (Cons d2 ds2)
      then have "0 \<le> d2" "d2 < 10" using assms(1) ds by (simp_all add: digit_list_def)
      from digit_char_facts(7) [OF this] show ?thesis by (simp add: S Cons)
    qed
  qed
  have Z: "takeWhile (is_radix_digit 10) ?S = map digit_char ds"
    by (rule takeWhile_digits [OF assms(1,3)])
  have ne: "map digit_char ds \<noteq> []" using assms(2) by simp
  show ?thesis
    unfolding parseInt_def Let_def trim
    using sgn hex Z ne map_radix_val_digits [OF assms(1)] by simp
qed

lemma significant_split:
  "ds = significant ds @ replicate (length ds - length (significant ds)) 0"
proof -
  let ?P = "\<lambda>d::int. d = 0"
  have "rev ds = takeWhile ?P (rev ds) @ dropWhile ?P (rev ds)" by simp
  then have "ds = rev (dropWhile ?P (rev ds)) @ rev (takeWhile ?P (rev ds))"
    by (metis rev_append rev_rev_ident)
  moreover have "takeWhile ?P (rev ds) = replicate (length (takeWhile ?P (rev ds))) 0"
    by (rule replicate_eqI) (auto dest: set_takeWhileD)
  then have "rev (takeWhile ?P (rev ds)) = replicate (length (takeWhile ?P (rev ds))) 0"
    by (metis rev_replicate)
  moreover have "length (takeWhile ?P (rev ds)) = length ds - length (significant ds)"
  proof -
    have "length (takeWhile ?P (rev ds)) + length (dropWhile ?P (rev ds)) = length ds"
      by (metis length_append length_rev takeWhile_dropWhile_id)
    then show ?thesis by (simp add: significant_def)
  qed
  ultimately show ?thesis by (simp add: significant_def)
qed

lemma significant_nonempty:
  assumes "ds \<noteq> []" and "hd ds \<noteq> 0"
  shows "significant ds \<noteq> []"
proof -
  have "hd ds \<in> set (rev ds)" using assms(1) by simp
  then have "dropWhile (\<lambda>d. d = 0) (rev ds) \<noteq> []"
    using assms(2) by (auto simp: dropWhile_eq_Nil_conv)
  then show ?thesis by (simp add: significant_def)
qed

lemma significant_digit_list: "digit_list ds \<Longrightarrow> digit_list (significant ds)"
  by (auto simp: digit_list_def significant_def dest: set_dropWhileD)

lemma dec_val_floor_nonneg_exp:
  assumes "0 \<le> x"
  shows "\<lfloor>dec_val M x\<rfloor> = M * 10 ^ nat x"
proof -
  have "(10::rat) powi x = 10 ^ nat x" using assms by (simp add: power_int_def)
  then have "dec_val M x = of_int (M * 10 ^ nat x)" by (simp add: dec_val_def)
  then show ?thesis by (simp only: floor_of_int)
qed

lemma dec_val_neg_exp:
  assumes "x \<le> 0"
  shows "dec_val M x = of_int M / of_int (10 ^ nat (- x))"
proof -
  have "(10::rat) powi x = inverse (10 ^ nat (- x))"
    using assms by (cases "x = 0") (simp_all add: power_int_def power_one_over inverse_eq_divide)
  then show ?thesis by (simp add: dec_val_def divide_inverse)
qed

lemma dec_val_floor_neg_exp:
  assumes "x \<le> 0"
  shows "\<lfloor>dec_val M x\<rfloor> = M div 10 ^ nat (- x)"
  unfolding dec_val_neg_exp [OF assms] by (rule floor_divide_of_int_eq)

lemma positive_toString_parseInt:
  assumes "0 < m" and "- 6 < int (length (digits10 m)) + e"
    and "int (length (digits10 m)) + e \<le> 21"
  shows "parseInt (positive_toString m e) = Dec \<lfloor>dec_val m e\<rfloor> 0"
proof -
  define ds0 where "ds0 = digits10 m"
  define sg where "sg = significant ds0"
  define z where "z = length ds0 - length sg"
  define M where "M = digits_value 10 sg"
  define n where "n = int (length ds0) + e"
  define k where "k = length sg"
  have m0: "0 \<le> m" using assms(1) by simp
  have dl0: "digit_list ds0" unfolding ds0_def by (rule digits10_digit_list [OF m0])
  have hd0: "ds0 \<noteq> []" "hd ds0 \<noteq> 0"
    using digits10_hd [OF assms(1)] by (simp_all add: ds0_def)
  have dl: "digit_list sg" unfolding sg_def by (rule significant_digit_list [OF dl0])
  have ne: "sg \<noteq> []" unfolding sg_def by (rule significant_nonempty [OF hd0])
  have k1: "1 \<le> k" using ne by (cases sg) (simp_all add: k_def)
  have split: "ds0 = sg @ replicate z 0"
    unfolding sg_def z_def by (rule significant_split)
  have len: "length ds0 = k + z" using split by (metis k_def length_append length_replicate)
  have "digits_value 10 ds0 = M * 10 ^ z"
    using digits_value_append [of sg "replicate z 0"] split digits_value_zeros [of z]
    by (simp add: M_def)
  then have m: "m = M * 10 ^ z" using digits10_value [OF m0] by (simp add: ds0_def)
  have Mb: "0 \<le> M" "M < 10 ^ k" using digits_value_bounds [OF dl] by (simp_all add: M_def k_def)
  have "dec_val (M * 10 ^ nat (int z)) ((e + int z) - int z) = dec_val M (e + int z)"
    by (rule dec_val_shift) simp
  then have V: "dec_val m e = dec_val M (n - int k)"
    using m len by (simp add: n_def algebra_simps)
  have pts: "positive_toString m e = decimal_string sg n"
    by (simp add: positive_toString_def Let_def ds0_def sg_def n_def)
  have n: "- 6 < n" "n \<le> 21" using assms(2,3) by (simp_all add: n_def ds0_def)
  consider (A) "int k \<le> n" | (B) "0 < n" "n < int k" | (C) "n \<le> 0"
    by linarith
  then show ?thesis
  proof cases
    case A
    let ?j = "nat (n - int k)"
    have "decimal_string sg n = map digit_char sg @ replicate ?j CHR ''0''"
      using A n by (simp add: decimal_string_def Let_def k_def)
    also have "\<dots> = map digit_char (sg @ replicate ?j 0) @ []"
      by (simp add: digit_char_0)
    finally have s: "decimal_string sg n = map digit_char (sg @ replicate ?j 0) @ []" .
    have dlz: "digit_list (sg @ replicate ?j 0)"
      using dl by (auto simp: digit_list_def)
    have "parseInt (decimal_string sg n) = Dec (digits_value 10 (sg @ replicate ?j 0)) 0"
      unfolding s by (rule parseInt_digits [OF dlz]) (use ne in simp_all)
    also have "digits_value 10 (sg @ replicate ?j 0) = M * 10 ^ ?j"
      using digits_value_append [of sg "replicate ?j 0"] digits_value_zeros [of ?j]
      by (simp add: M_def)
    also have "M * 10 ^ ?j = \<lfloor>dec_val M (n - int k)\<rfloor>"
      using dec_val_floor_nonneg_exp [of "n - int k" M] A by simp
    finally show ?thesis using pts V by simp
  next
    case B
    let ?j = "nat n"
    have jk: "?j \<le> length sg" "0 < ?j" using B by (simp_all add: k_def)
    have "decimal_string sg n =
        take ?j (map digit_char sg) @ ''.'' @ drop ?j (map digit_char sg)"
      using B n by (simp add: decimal_string_def Let_def k_def)
    then have s: "decimal_string sg n =
        map digit_char (take ?j sg) @ (CHR ''.'' # drop ?j (map digit_char sg))"
      by (simp add: take_map)
    have dlt: "digit_list (take ?j sg)"
      using dl by (auto simp: digit_list_def dest: in_set_takeD)
    have net: "take ?j sg \<noteq> []" using jk ne by (cases sg) auto
    have "parseInt (decimal_string sg n) = Dec (digits_value 10 (take ?j sg)) 0"
      unfolding s by (rule parseInt_digits [OF dlt net]) simp
    also have "digits_value 10 (take ?j sg) = M div 10 ^ (length sg - ?j)"
      unfolding M_def by (rule digits_value_take [OF dl jk(1)])
    also have "length sg - ?j = nat (- (n - int k))"
      using B by (simp add: k_def)
    also have "M div 10 ^ nat (- (n - int k)) = \<lfloor>dec_val M (n - int k)\<rfloor>"
      using dec_val_floor_neg_exp [of "n - int k" M] B by simp
    finally show ?thesis using pts V by simp
  next
    case C
    have "decimal_string sg n =
        ''0.'' @ replicate (nat (- n)) CHR ''0'' @ map digit_char sg"
      using C n k1 by (simp add: decimal_string_def Let_def k_def)
    then have s: "decimal_string sg n =
        map digit_char [0] @ (CHR ''.'' # replicate (nat (- n)) CHR ''0'' @ map digit_char sg)"
      by (simp add: digit_char_0)
    have "parseInt (decimal_string sg n) = Dec (digits_value 10 [0]) 0"
      unfolding s by (rule parseInt_digits) (simp_all add: digit_list_def)
    then have p: "parseInt (decimal_string sg n) = Dec 0 0"
      by (simp add: digits_value_def)
    have le: "n - int k \<le> 0" using C by simp
    have "(10::int) ^ k \<le> 10 ^ nat (- (n - int k))"
      using C by (intro power_increasing) simp_all
    then have "M < 10 ^ nat (- (n - int k))" using Mb(2) by linarith
    then have "M div 10 ^ nat (- (n - int k)) = 0"
      using Mb(1) by (simp add: div_pos_pos_trivial)
    then have "\<lfloor>dec_val M (n - int k)\<rfloor> = 0"
      using dec_val_floor_neg_exp [OF le, of M] by simp
    then show ?thesis using pts V p by simp
  qed
qed

lemma power_int_10_less_cancel:
  assumes "(10::rat) powi a < 10 powi b"
  shows "a < b"
proof (rule ccontr)
  assume "\<not> a < b"
  then have "b \<le> a" by simp
  then have "(10::rat) powi b \<le> 10 powi a" by (rule power_int_increasing) simp
  then show False using assms by simp
qed

lemma dec_val_digits_bounds:
  assumes "0 < m"
  shows "10 powi (int (length (digits10 m)) + e - 1) \<le> dec_val m e"
    and "dec_val m e < 10 powi (int (length (digits10 m)) + e)"
proof -
  let ?L = "length (digits10 m)"
  have m0: "0 \<le> m" using assms by simp
  note dl = digits10_digit_list [OF m0]
  note hd = digits10_hd [OF assms]
  have L1: "1 \<le> ?L" using hd by (cases "digits10 m") simp_all
  have lo: "10 ^ (?L - 1) \<le> m"
    using digits_value_lower [OF dl hd [THEN conjunct1] hd [THEN conjunct2]]
      digits10_value [OF m0] by simp
  have hi: "m < 10 ^ ?L"
    using digits_value_bounds [OF dl] digits10_value [OF m0] by simp
  have pe: "(0::rat) < 10 powi e" by (rule zero_less_power_int) simp
  have A: "(10::rat) ^ (?L - 1) \<le> of_int m"
    using lo by (metis of_int_le_iff of_int_numeral of_int_power)
  have "(10::rat) powi (int ?L + e - 1) = 10 powi (int ?L - 1) * 10 powi e"
    by (simp add: power_int_add [symmetric] algebra_simps)
  also have "(10::rat) powi (int ?L - 1) = 10 ^ (?L - 1)"
    using L1 hd by (simp add: power_int_def nat_diff_distrib')
  also have "(10::rat) ^ (?L - 1) * 10 powi e \<le> of_int m * 10 powi e"
    using A pe by (simp only: mult_le_cancel_right_pos)
  finally show "10 powi (int ?L + e - 1) \<le> dec_val m e"
    by (simp only: dec_val_def)
  have B: "of_int m < (10::rat) ^ ?L"
    using hi by (metis of_int_less_iff of_int_numeral of_int_power)
  have "dec_val m e = of_int m * 10 powi e" by (simp only: dec_val_def)
  also have "\<dots> < (10::rat) ^ ?L * 10 powi e"
    using B pe by (simp only: mult_less_cancel_right_pos)
  also have "(10::rat) ^ ?L * 10 powi e = 10 powi (int ?L + e)"
    by (simp add: power_int_add)
  finally show "dec_val m e < 10 powi (int ?L + e)" .
qed

lemma Number_toString_parseInt:
  assumes "1 / 10 ^ 6 \<le> dec_val m e" and "dec_val m e < 10 ^ 21"
  shows "parseInt (Number_toString (Dec m e)) = Dec \<lfloor>dec_val m e\<rfloor> 0"
proof -
  have pe: "(0::rat) < 10 powi e" by (rule zero_less_power_int) simp
  have "0 < dec_val m e" using assms(1) by (simp add: order.strict_trans2 [OF _ assms(1)])
  then have m: "0 < m" using pe by (simp add: dec_val_def zero_less_mult_iff)
  note b = dec_val_digits_bounds [OF m, of e]
  let ?n = "int (length (digits10 m)) + e"
  have "(10::rat) powi (- 6) = 1 / 10 ^ 6" by (simp add: power_int_def power_one_over)
  then have "(10::rat) powi (- 6) < 10 powi ?n" using assms(1) b(2) by simp
  then have n1: "- 6 < ?n" by (rule power_int_10_less_cancel)
  have "(10::rat) powi 21 = 10 ^ 21" by (simp add: power_int_def)
  then have "(10::rat) powi (?n - 1) < 10 powi 21" using assms(2) b(1) by simp
  then have "?n - 1 < 21" by (rule power_int_10_less_cancel)
  then have n2: "?n \<le> 21" by simp
  show ?thesis
    using positive_toString_parseInt [OF m n1 n2] m by simp
qed

subsection \<open>Saving the progress and reading it back\<close>

text \<open>
  Claim C10, as the player has it. A position \<open>t\<close> from \<open>0.000001\<close> up to, but not
  including, \<open>10 ^ 21\<close> that \<^verbatim>\<open>saveProgress\<close> writes for the current episode is read
  back by \<^verbatim>\<open>getEpisodeProgress\<close> as the integer part of \<open>t\<close>. A position of exactly \<open>0\<close>
  is not written, and an episode with nothing stored has progress \<open>0\<close>.
\<close>

theorem progress_round_trip:
  "(currentEpisode s = Some ep \<and> currentTime s = Dec m e \<and>
      1 / 10 ^ 6 \<le> dec_val m e \<and> dec_val m e < 10 ^ 21 \<longrightarrow>
      getEpisodeProgress (ep_id ep) (saveProgress s) = Dec \<lfloor>dec_val m e\<rfloor> 0) \<and>
   (currentTime s = Dec 0 e \<longrightarrow> saveProgress s = s) \<and>
   (getItem (progress_key i) (localStorage s) = None \<longrightarrow> getEpisodeProgress i s = Dec 0 0)"
proof -
  have 1: "getEpisodeProgress (ep_id ep) (saveProgress s) = Dec \<lfloor>dec_val m e\<rfloor> 0"
    if h: "currentEpisode s = Some ep" "currentTime s = Dec m e"
      "1 / 10 ^ 6 \<le> dec_val m e" "dec_val m e < 10 ^ 21"
  proof -
    have "0 < dec_val m e" using h(3) by (simp add: order.strict_trans2 [OF _ h(3)])
    then have gt: "js_gt (currentTime s) (Dec 0 0)"
      using h(2) by (simp add: js_gt_def dec_val_def)
    note p = Number_toString_parseInt [OF h(3,4)]
    have ne: "Number_toString (Dec m e) \<noteq> []"
    proof
      assume "Number_toString (Dec m e) = []"
      then have "parseInt (Number_toString (Dec m e)) = NaN"
        by (simp add: parseInt_def trim_start_def)
      then show False using p by simp
    qed
    show ?thesis
      using h(1,2) gt p ne
      by (simp add: saveProgress_def getEpisodeProgress_def getItem_setItem)
  qed
  have 2: "saveProgress s = s" if "currentTime s = Dec 0 e"
    using that by (simp add: saveProgress_def js_gt_def dec_val_def split: option.splits)
  have 3: "getEpisodeProgress i s = Dec 0 0"
    if "getItem (progress_key i) (localStorage s) = None"
    using that by (simp add: getEpisodeProgress_def)
  from 1 2 3 show ?thesis by blast
qed

text \<open>
  Second 125.5 of the first episode is read back as 125; at position \<open>0\<close> nothing is
  written; the second episode, never played, has progress \<open>0\<close>.
\<close>

theorem progress_round_trip_witness:
  "getEpisodeProgress 1 (saveProgress (media_at (Dec 1255 (- 1)) playing_first
      \<lparr>currentTime := Dec 1255 (- 1)\<rparr>)) = Dec 125 0 \<and>
   saveProgress playing_first = playing_first \<and>
   getEpisodeProgress 2 playing_first = Dec 0 0"
proof -
  let ?s = "media_at (Dec 1255 (- 1)) playing_first \<lparr>currentTime := Dec 1255 (- 1)\<rparr>"
  have h1: "currentEpisode ?s = Some (sample_episodes ! 0) \<and> currentTime ?s = Dec 1255 (- 1) \<and>
      1 / 10 ^ 6 \<le> dec_val 1255 (- 1) \<and> dec_val 1255 (- 1) < 10 ^ 21"
    by code_simp
  have h2: "currentTime playing_first = Dec 0 0" by code_simp
  have h3: "getItem (progress_key 2) (localStorage playing_first) = None" by code_simp
  have e1: "ep_id (sample_episodes ! 0) = 1" by code_simp
  have e2: "\<lfloor>dec_val 1255 (- 1)\<rfloor> = 125" by code_simp
  from progress_round_trip [of ?s "sample_episodes ! 0" 1255 "- 1"] h1 e1 e2
  have a: "getEpisodeProgress 1 (saveProgress ?s) = Dec 125 0" by simp
  from progress_round_trip [where s = playing_first and e = 0] h2
  have b: "saveProgress playing_first = playing_first" by blast
  from progress_round_trip [where s = playing_first and i = 2] h3
  have c: "getEpisodeProgress 2 playing_first = Dec 0 0" by blast
  from a b c show ?thesis by blast
qed

text \<open>
  Claim C10, as stated, fails below a millionth of a second: the position \<open>0.0000005\<close> is
  printed as \<^verbatim>\<open>5e-7\<close>, which \<^verbatim>\<open>parseInt\<close> reads as \<open>5\<close>, while its integer part is \<open>0\<close>.
\<close>

theorem tiny_position_counterexample:
  "getItem (progress_key 1) (localStorage (timeupdate (media_at (Dec 5 (- 7)) playing_first))) =
     Some (Text ''5e-7'') \<and>
   getEpisodeProgress 1 (timeupdate (media_at (Dec 5 (- 7)) playing_first)) = Dec 5 0 \<and>
   \<lfloor>dec_val 5 (- 7)\<rfloor> = 0"
  by code_simp

end
